theory Spec2Isabelle
  imports Complex_Main "HOL-Library.AList"
begin

section \<open>SquareMiles multimodal optimizer: data model\<close>

text \<open>
  The embedding follows \<^verbatim>\<open>src/src/app.py\<close>. Python floats are modelled as
  real numbers, so every arithmetic expression of the source is read exactly
  (no rounding, no NaN, no infinity). Strings that the program only compares are
  byte strings; the few non-ASCII characters of the source are written as their UTF-8
  bytes.
\<close>

type_synonym point = "real \<times> real"

datatype py_error = KeyError | AttributeError | IndexError

text \<open>The frozen dataclass \<^verbatim>\<open>Node\<close>.\<close>

record node =
  key :: string
  name :: string
  lat :: real
  lon :: real
  kind :: string

subsection \<open>Static catalogs\<close>

record mode_info =
  label :: string
  emission_kg_per_km :: real
  cost_trans :: real
  cost_labour :: real
  speed_kph :: real
  osrm_profile :: "string option"

definition MODES :: "(string \<times> mode_info) list" where
  "MODES = [
    (''truck'', \<lparr>label = ''Truck (HGV)'', emission_kg_per_km = 0.448, cost_trans = 0.508,
       cost_labour = 0.289190, speed_kph = 23.45, osrm_profile = Some ''driving''\<rparr>),
    (''elcv'', \<lparr>label = ''Electric LCV'', emission_kg_per_km = 0.346, cost_trans = 0.070,
       cost_labour = 0.289190, speed_kph = 23.45, osrm_profile = Some ''driving''\<rparr>),
    (''small_van'', \<lparr>label = ''Small Van (ICE)'', emission_kg_per_km = 0.210, cost_trans = 0.179,
       cost_labour = 0.289190, speed_kph = 23.45, osrm_profile = Some ''driving''\<rparr>),
    (''cargo_bike'', \<lparr>label = ''Cargo Bike'', emission_kg_per_km = 0.033, cost_trans = 0.004,
       cost_labour = 0.419688, speed_kph = 16.0, osrm_profile = Some ''cycling''\<rparr>),
    (''e_scooter_trailer'', \<lparr>label = ''E-Scooter + Trailer'', emission_kg_per_km = 0.025,
       cost_trans = 0.005, cost_labour = 0.479643, speed_kph = 14.0,
       osrm_profile = Some ''cycling''\<rparr>),
    (''autonomous_robot'', \<lparr>label = ''Autonomous Delivery Robot'', emission_kg_per_km = 0.010,
       cost_trans = 0.005, cost_labour = 1.119167, speed_kph = 6.0,
       osrm_profile = Some ''walking''\<rparr>),
    (''cargo_tram'', \<lparr>label = ''Cargo Tram'', emission_kg_per_km = 0.0, cost_trans = 0.808,
       cost_labour = 0.335750, speed_kph = 20.0, osrm_profile = None\<rparr>),
    (''cargo_bus'', \<lparr>label = ''Cargo Bus / Night Bus'', emission_kg_per_km = 0.822,
       cost_trans = 0.366, cost_labour = 0.289190, speed_kph = 23.45,
       osrm_profile = Some ''driving''\<rparr>),
    (''boat'', \<lparr>label = ''Urban River Barge / Boat'', emission_kg_per_km = 0.033,
       cost_trans = 31.718, cost_labour = 0.559583, speed_kph = 12.0, osrm_profile = None\<rparr>)]"

text \<open>
  \<^verbatim>\<open>MODE_ESG\<close>: the dashboard factors. The key \<^verbatim>\<open>capex_k$\<close> is optional,
  because the default dictionary of \<^verbatim>\<open>esg_metrics_for_segments\<close> has no such key.
\<close>

record esg_factors =
  fuel_l_per_km :: real
  electricity_kwh_per_km :: real
  road_space_eq :: real
  noise_idx :: real
  safety_risk :: real
  capex_k :: "real option"

definition MODE_ESG :: "(string \<times> esg_factors) list" where
  "MODE_ESG = [
    (''truck'', \<lparr>fuel_l_per_km = 0.30, electricity_kwh_per_km = 0.0, road_space_eq = 3.0,
       noise_idx = 0.84, safety_risk = 0.8, capex_k = Some 150\<rparr>),
    (''small_van'', \<lparr>fuel_l_per_km = 0.12, electricity_kwh_per_km = 0.0, road_space_eq = 1.6,
       noise_idx = 0.68, safety_risk = 0.6, capex_k = Some 35\<rparr>),
    (''elcv'', \<lparr>fuel_l_per_km = 0.0, electricity_kwh_per_km = 0.20, road_space_eq = 1.6,
       noise_idx = 0.68, safety_risk = 0.5, capex_k = Some 45\<rparr>),
    (''cargo_bike'', \<lparr>fuel_l_per_km = 0.0, electricity_kwh_per_km = 0.05, road_space_eq = 0.4,
       noise_idx = 0.40, safety_risk = 0.3, capex_k = Some 7\<rparr>),
    (''e_scooter_trailer'', \<lparr>fuel_l_per_km = 0.0, electricity_kwh_per_km = 0.03,
       road_space_eq = 0.2, noise_idx = 0.24, safety_risk = 0.25, capex_k = Some 3\<rparr>),
    (''autonomous_robot'', \<lparr>fuel_l_per_km = 0.0, electricity_kwh_per_km = 0.02,
       road_space_eq = 0.1, noise_idx = 0.24, safety_risk = 0.2, capex_k = Some 12\<rparr>),
    (''cargo_tram'', \<lparr>fuel_l_per_km = 0.0, electricity_kwh_per_km = 0.40, road_space_eq = 0.0,
       noise_idx = 0.72, safety_risk = 0.15, capex_k = Some 500\<rparr>),
    (''cargo_bus'', \<lparr>fuel_l_per_km = 0.08, electricity_kwh_per_km = 0.0, road_space_eq = 1.8,
       noise_idx = 0.88, safety_risk = 0.5, capex_k = Some 250\<rparr>),
    (''boat'', \<lparr>fuel_l_per_km = 0.05, electricity_kwh_per_km = 0.0, road_space_eq = 0.0,
       noise_idx = 0.56, safety_risk = 0.3, capex_k = Some 350\<rparr>)]"

text \<open>
  \<^verbatim>\<open>CITY_MODE_CAPS\<close>: per city, the list \<^verbatim>\<open>allowed\<close> and the free-text
  \<^verbatim>\<open>notes\<close>. The a-tilde of the sixth city name is the two bytes C3 A3.
\<close>

record city_caps =
  allowed :: "string list"
  caps_notes :: string

definition sao_paulo :: string where
  "sao_paulo = ''S'' @ [CHR 0xC3, CHR 0xA3] @ ''o Paulo, Brazil''"

definition CITY_MODE_CAPS :: "(string \<times> city_caps) list" where
  "CITY_MODE_CAPS = [
    (''Hamburg, Germany'',
      \<lparr>allowed = [''boat'', ''cargo_bike'', ''cargo_bus'', ''cargo_tram'', ''elcv'', ''small_van'',
                  ''truck''],
       caps_notes = ''dense waterways & strong bike infra; no robots, no tram freight''\<rparr>),
    (''Shanghai, China'',
      \<lparr>allowed = [''autonomous_robot'', ''cargo_bike'', ''cargo_tram'', ''e_scooter_trailer'',
                  ''small_van'', ''truck''],
       caps_notes = ''robots pilot zones; extensive waterways; tram corridors exist''\<rparr>),
    (''Amsterdam, Netherlands'',
      \<lparr>allowed = [''boat'', ''cargo_bike'', ''cargo_bus'', ''cargo_tram'', ''elcv'', ''truck''],
       caps_notes = ''canals & tram; scooters widely piloted; no robots''\<rparr>),
    (''New York City, USA'',
      \<lparr>allowed = [''autonomous_robot'', ''cargo_bike'', ''cargo_bus'', ''small_van'', ''truck''],
       caps_notes = ''clean trucks, cargo bikes; boat feasible; no tram/robots''\<rparr>),
    (''London, UK'',
      \<lparr>allowed = [''autonomous_robot'', ''cargo_bike'', ''cargo_bus'', ''elcv'', ''truck''],
       caps_notes = ''ULEZ; cargo bus at night; scooters allowed in trials; no cargo tram''\<rparr>),
    (sao_paulo,
      \<lparr>allowed = [''cargo_bus'', ''small_van'', ''truck''],
       caps_notes = ''no urban barges/boats for last-mile; scooters constrained; no robots/tram''\<rparr>),
    (''Nairobi, Kenya'',
      \<lparr>allowed = [''cargo_bus'', ''small_van'', ''truck''],
       caps_notes = ''no boats/tram/robots; bikes feasible''\<rparr>),
    (''Mumbai, India'',
      \<lparr>allowed = [''boat'', ''cargo_bike'', ''cargo_bus'', ''small_van'', ''truck''],
       caps_notes = ''coastal/creeks allow boat in some corridors; no tram/robots''\<rparr>),
    (''Singapore, Singapore'',
      \<lparr>allowed = [''boat'', ''cargo_bike'', ''cargo_bus'', ''elcv'', ''truck''],
       caps_notes = ''strict PMD rules (no public e-scooters); high compliance; no robots/tram''\<rparr>),
    (''Istanbul, Turkey'',
      \<lparr>allowed = [''boat'', ''cargo_bus'', ''cargo_tram'', ''truck''],
       caps_notes = ''tram present; Bosphorus/Golden Horn allow boats; no scooters/robots''\<rparr>)]"

subsection \<open>Impact calculator\<close>

text \<open>
  \<^verbatim>\<open>impact_for_leg(distance_km, mode_key)\<close>: \<^verbatim>\<open>MODES[mode_key]\<close> raises
  \<^verbatim>\<open>KeyError\<close> for an unknown key; otherwise the triple (time, CO2, cost).
\<close>

definition impact_for_leg :: "real \<Rightarrow> string \<Rightarrow> py_error + (real \<times> real \<times> real)" where
  "impact_for_leg dist_km mode_key =
     (case map_of MODES mode_key of
        None \<Rightarrow> Inl KeyError
      | Some m \<Rightarrow>
          (let t_h = dist_km / max (speed_kph m) (1 / 1000000);
               co2 = emission_kg_per_km m * dist_km;
               cst = (cost_trans m + cost_labour m) * dist_km
           in Inr (t_h, co2, cst)))"

subsection \<open>The outside world: cache file, HTTP services, sleeping\<close>

text \<open>
  An address is a Python \<^verbatim>\<open>str\<close> read as the list of its code points, because
  \<^verbatim>\<open>str.strip()\<close> works on code points. The other strings of the program are only
  compared and passed on, and stay byte strings.
\<close>

type_synonym ustring = "nat list"

text \<open>
  The only file of the program is \<^verbatim>\<open>geocode_cache.json\<close>, a JSON object from
  address to \<^verbatim>\<open>[lat, lon]\<close> or \<^verbatim>\<open>null\<close>. A missing file and a file that
  cannot be read or parsed (an empty file, a file cut short) both give the empty
  dictionary.
\<close>

type_synonym cache = "ustring \<rightharpoonup> point option"

datatype file_state = Absent | Unreadable | Stored cache

definition load_cache :: "file_state \<Rightarrow> cache" where
  "load_cache f = (case f of Stored c \<Rightarrow> c | _ \<Rightarrow> Map.empty)"

text \<open>
  What the code distinguishes in an answer of the geocoding service, in the order of its
  tests: no response (\<^verbatim>\<open>RequestException\<close>), status 429, an OK response with a
  first result, an OK response with an empty list, an OK response that does not parse,
  any other status.
\<close>

datatype geo_reply =
  No_response | Too_many_requests | Ok_found real real | Ok_empty | Ok_malformed | Http_error

text \<open>
  An answer of the routing service: unusable (exception, bad status, no route), or the
  first route's \<^verbatim>\<open>distance\<close> in metres with its GeoJSON coordinates (lon, lat).
\<close>

datatype osrm_reply = Osrm_unavailable | Osrm_route real "(real \<times> real) list"

datatype event = Http_nominatim ustring | Http_osrm string point point | Sleep real

text \<open>
  What can happen when the cache is written: the dictionary is stored; or
  \<^verbatim>\<open>open("w")\<close> fails and the file is as before; or the file is opened, which
  empties it, and \<^verbatim>\<open>json.dump\<close> fails, which leaves it empty or cut short.
\<close>

datatype write_result = Written | Open_failed | Dump_failed

text \<open>
  The environment answers each request as a function of everything that happened before
  it, and decides in the same way how a write of the cache file ends.
\<close>

record env =
  nominatim :: "event list \<Rightarrow> ustring \<Rightarrow> geo_reply"
  osrm :: "event list \<Rightarrow> string \<Rightarrow> point \<Rightarrow> point \<Rightarrow> osrm_reply"
  disk_write :: "event list \<Rightarrow> write_result"

record world =
  cache_file :: file_state
  trace :: "event list"

definition http_nominatim :: "env \<Rightarrow> ustring \<Rightarrow> world \<Rightarrow> geo_reply \<times> world" where
  "http_nominatim e q w = (nominatim e (trace w) q, w\<lparr>trace := trace w @ [Http_nominatim q]\<rparr>)"

definition http_osrm :: "env \<Rightarrow> string \<Rightarrow> point \<Rightarrow> point \<Rightarrow> world \<Rightarrow> osrm_reply \<times> world" where
  "http_osrm e profile a b w =
     (osrm e (trace w) profile a b, w\<lparr>trace := trace w @ [Http_osrm profile a b]\<rparr>)"

definition sleep :: "real \<Rightarrow> world \<Rightarrow> world" where
  "sleep secs w = w\<lparr>trace := trace w @ [Sleep secs]\<rparr>"

text \<open>
  Writing the cache: a failure is swallowed (\<^verbatim>\<open>except Exception: pass\<close>), and
  leaves the file as before or unreadable.
\<close>

definition after_write :: "write_result \<Rightarrow> cache \<Rightarrow> file_state \<Rightarrow> file_state" where
  "after_write res c before =
     (case res of Written \<Rightarrow> Stored c | Open_failed \<Rightarrow> before | Dump_failed \<Rightarrow> Unreadable)"

definition write_cache :: "env \<Rightarrow> cache \<Rightarrow> world \<Rightarrow> world" where
  "write_cache e c w = w\<lparr>cache_file := after_write (disk_write e (trace w)) c (cache_file w)\<rparr>"

subsection \<open>Geocoder\<close>

text \<open>
  The white space of \<^verbatim>\<open>str.strip()\<close>: the code points 09 to 0D, 1C to 1F, 20, 85
  and A0, and U+1680, U+2000 to U+200A, U+2028, U+2029, U+202F, U+205F and U+3000.
\<close>

definition py_isspace :: "nat \<Rightarrow> bool" where
  "py_isspace c =
     ((0x09 \<le> c \<and> c \<le> 0x0D) \<or> (0x1C \<le> c \<and> c \<le> 0x20) \<or> c = 0x85 \<or> c = 0xA0
      \<or> c = 0x1680 \<or> (0x2000 \<le> c \<and> c \<le> 0x200A) \<or> c = 0x2028 \<or> c = 0x2029
      \<or> c = 0x202F \<or> c = 0x205F \<or> c = 0x3000)"

definition strip :: "ustring \<Rightarrow> ustring" where
  "strip s = rev (dropWhile py_isspace (rev (dropWhile py_isspace s)))"

text \<open>
  The loop \<^verbatim>\<open>for attempt in range(4)\<close> of \<^verbatim>\<open>geocode_address\<close>, over the attempt
  numbers still to run; the empty list is the code after the loop.
\<close>

fun geocode_attempts :: "env \<Rightarrow> ustring \<Rightarrow> cache \<Rightarrow> nat list \<Rightarrow> world \<Rightarrow> point option \<times> world" where
  "geocode_attempts e k c [] w = (None, write_cache e (c(k \<mapsto> None)) w)"
| "geocode_attempts e k c (attempt # rest) w =
     (case http_nominatim e k w of (r, w1) \<Rightarrow>
        (case r of
           No_response \<Rightarrow> geocode_attempts e k c rest (sleep (0.5 * 2 ^ attempt) w1)
         | Too_many_requests \<Rightarrow> geocode_attempts e k c rest (sleep (1 + real attempt * 2) w1)
         | Ok_found la lo \<Rightarrow> (Some (la, lo), write_cache e (c(k \<mapsto> Some (la, lo))) w1)
         | Ok_empty \<Rightarrow> (None, write_cache e (c(k \<mapsto> None)) w1)
         | Ok_malformed \<Rightarrow> geocode_attempts e k c rest (sleep (0.5 * 2 ^ attempt) w1)
         | Http_error \<Rightarrow> geocode_attempts e k c rest (sleep (0.5 * 2 ^ attempt) w1)))"

definition geocode_address :: "env \<Rightarrow> ustring \<Rightarrow> world \<Rightarrow> point option \<times> world" where
  "geocode_address e addr w =
     (let c = load_cache (cache_file w);
          k = strip addr
      in if k = [] then (None, w)
         else (case c k of
                 Some v \<Rightarrow> (v, w)
               | None \<Rightarrow> geocode_attempts e k c [0..<4] w))"

subsection \<open>Router\<close>

definition radians :: "real \<Rightarrow> real" where
  "radians x = x * pi / 180"

definition haversine_km :: "point \<Rightarrow> point \<Rightarrow> real" where
  "haversine_km a b =
     (let lat1 = radians (fst a); lon1 = radians (snd a);
          lat2 = radians (fst b); lon2 = radians (snd b);
          dlat = lat2 - lat1;
          dlon = lon2 - lon1;
          h = (sin (dlat / 2))\<^sup>2 + cos lat1 * cos lat2 * (sin (dlon / 2))\<^sup>2
      in 2 * 6371.0088 * arcsin (sqrt h))"

text \<open>
  \<^verbatim>\<open>osrm_distance_and_shape\<close>: kilometres and the path as (lat, lon) points, or
  \<^verbatim>\<open>None\<close>. The URL carries the profile and both points.
\<close>

definition osrm_distance_and_shape ::
  "env \<Rightarrow> point \<Rightarrow> point \<Rightarrow> string \<Rightarrow> world \<Rightarrow> (real \<times> point list) option \<times> world" where
  "osrm_distance_and_shape e a b profile w =
     (case http_osrm e profile a b w of
        (Osrm_route metres coords, w1) \<Rightarrow> (Some (metres / 1000, map (\<lambda>c. (snd c, fst c)) coords), w1)
      | (Osrm_unavailable, w1) \<Rightarrow> (None, w1))"

definition route_with_engine ::
  "env \<Rightarrow> point \<Rightarrow> point \<Rightarrow> string \<Rightarrow> (string \<times> mode_info) list \<Rightarrow> string \<Rightarrow> world
     \<Rightarrow> py_error + ((real \<times> point list) \<times> world)" where
  "route_with_engine e a b mode_key modes_dict engine w =
     (case map_of modes_dict mode_key of
        None \<Rightarrow> Inl KeyError
      | Some m \<Rightarrow>
          (case osrm_profile m of
             None \<Rightarrow> Inr ((haversine_km a b, [a, b]), w)
           | Some profile \<Rightarrow>
               if profile = [] then Inr ((haversine_km a b, [a, b]), w)
               else if engine = ''OSRM (open data)'' then
                 (case osrm_distance_and_shape e a b profile w of
                    (Some r, w1) \<Rightarrow> Inr (r, w1)
                  | (None, w1) \<Rightarrow> Inr ((haversine_km a b, [a, b]), w1))
               else Inr ((haversine_km a b, [a, b]), w)))"

subsection \<open>Candidates\<close>

text \<open>
  \<^verbatim>\<open>round(x, ndigits)\<close>: the nearest multiple of \<^verbatim>\<open>10 ** -ndigits\<close>, a tie going to
  the even multiple.
\<close>

definition py_round :: "real \<Rightarrow> nat \<Rightarrow> real" where
  "py_round x ndigits =
     (let y = x * 10 ^ ndigits;
          f = \<lfloor>y\<rfloor>;
          r = (if y - of_int f < 1 / 2 then f
               else if 1 / 2 < y - of_int f then f + 1
               else if even f then f else f + 1)
      in of_int r / 10 ^ ndigits)"

text \<open>
  The dictionary \<^verbatim>\<open>totals\<close>, and a segment: the same four quantities with the
  two end labels, the mode and the path.
\<close>

record quantities =
  distance_km :: real
  time_h :: real
  co2_kg :: real
  cost :: real

record segment = quantities +
  seg_from :: string
  seg_to :: string
  mode :: string
  geometry :: "point list"

text \<open>
  A candidate of the search. The two scores are keys that the search adds to the
  dictionary after all candidates exist, so they are optional here.
\<close>

record candidate =
  hub :: "node option"
  modes :: "string list"
  segments :: "segment list"
  totals :: quantities
  score_norm_co2 :: "real option"
  score_norm_cost :: "real option"

definition eval_candidate_via_hub ::
  "env \<Rightarrow> point \<Rightarrow> node \<Rightarrow> point \<Rightarrow> string \<Rightarrow> string \<Rightarrow> string \<Rightarrow> world
     \<Rightarrow> py_error + ((segment list \<times> quantities) \<times> world)" where
  "eval_candidate_via_hub e origin hb dest m1 m2 engine w =
     (case route_with_engine e origin (lat hb, lon hb) m1 MODES engine w of
        Inl err \<Rightarrow> Inl err
      | Inr ((d1, g1), w1) \<Rightarrow>
     (case impact_for_leg d1 m1 of
        Inl err \<Rightarrow> Inl err
      | Inr (t1, e1, c1) \<Rightarrow>
     (case route_with_engine e (lat hb, lon hb) dest m2 MODES engine w1 of
        Inl err \<Rightarrow> Inl err
      | Inr ((d2, g2), w2) \<Rightarrow>
     (case impact_for_leg d2 m2 of
        Inl err \<Rightarrow> Inl err
      | Inr (t2, e2, c2) \<Rightarrow>
          Inr (([\<lparr>distance_km = py_round d1 3, time_h = t1, co2_kg = e1, cost = c1,
                    seg_from = ''Start'', seg_to = name hb, mode = m1, geometry = g1\<rparr>,
                  \<lparr>distance_km = py_round d2 3, time_h = t2, co2_kg = e2, cost = c2,
                    seg_from = name hb, seg_to = ''Destination'', mode = m2, geometry = g2\<rparr>],
                 \<lparr>distance_km = py_round (d1 + d2) 3, time_h = t1 + t2, co2_kg = e1 + e2,
                   cost = c1 + c2\<rparr>), w2)))))"

definition eval_candidate_direct ::
  "env \<Rightarrow> point \<Rightarrow> point \<Rightarrow> string \<Rightarrow> string \<Rightarrow> world
     \<Rightarrow> py_error + ((segment list \<times> quantities) \<times> world)" where
  "eval_candidate_direct e origin dest mode_key engine w =
     (case route_with_engine e origin dest mode_key MODES engine w of
        Inl err \<Rightarrow> Inl err
      | Inr ((d, g), w1) \<Rightarrow>
     (case impact_for_leg d mode_key of
        Inl err \<Rightarrow> Inl err
      | Inr (t, em, c) \<Rightarrow>
          Inr (([\<lparr>distance_km = py_round d 3, time_h = t, co2_kg = em, cost = c,
                    seg_from = ''Start'', seg_to = ''Destination'', mode = mode_key,
                    geometry = g\<rparr>],
                 \<lparr>distance_km = py_round d 3, time_h = t, co2_kg = em, cost = c\<rparr>), w1)))"

subsection \<open>Candidate search\<close>

text \<open>
  The three nested loops of \<^verbatim>\<open>search_best_routes\<close> (innermost first) and the loop
  of the direct case. Each appends to \<^verbatim>\<open>results\<close> and stops at the first error.
\<close>

fun search_m2 ::
  "env \<Rightarrow> point \<Rightarrow> point \<Rightarrow> string \<Rightarrow> node \<Rightarrow> string \<Rightarrow> string list \<Rightarrow> candidate list \<Rightarrow> world
     \<Rightarrow> py_error + (candidate list \<times> world)" where
  "search_m2 e origin dest engine hb m1 [] results w = Inr (results, w)"
| "search_m2 e origin dest engine hb m1 (m2 # ms) results w =
     (case eval_candidate_via_hub e origin hb dest m1 m2 engine w of
        Inl err \<Rightarrow> Inl err
      | Inr ((segs, tot), w1) \<Rightarrow>
          search_m2 e origin dest engine hb m1 ms
            (results @ [\<lparr>hub = Some hb, modes = [m1, m2], segments = segs, totals = tot,
                          score_norm_co2 = None, score_norm_cost = None\<rparr>]) w1)"

fun search_m1 ::
  "env \<Rightarrow> point \<Rightarrow> point \<Rightarrow> string \<Rightarrow> string list \<Rightarrow> node \<Rightarrow> string list \<Rightarrow> candidate list
     \<Rightarrow> world \<Rightarrow> py_error + (candidate list \<times> world)" where
  "search_m1 e origin dest engine allowed_modes hb [] results w = Inr (results, w)"
| "search_m1 e origin dest engine allowed_modes hb (m1 # ms) results w =
     (case search_m2 e origin dest engine hb m1 allowed_modes results w of
        Inl err \<Rightarrow> Inl err
      | Inr (results1, w1) \<Rightarrow> search_m1 e origin dest engine allowed_modes hb ms results1 w1)"

fun search_hubs ::
  "env \<Rightarrow> point \<Rightarrow> point \<Rightarrow> string \<Rightarrow> string list \<Rightarrow> node list \<Rightarrow> candidate list \<Rightarrow> world
     \<Rightarrow> py_error + (candidate list \<times> world)" where
  "search_hubs e origin dest engine allowed_modes [] results w = Inr (results, w)"
| "search_hubs e origin dest engine allowed_modes (hb # hbs) results w =
     (case search_m1 e origin dest engine allowed_modes hb allowed_modes results w of
        Inl err \<Rightarrow> Inl err
      | Inr (results1, w1) \<Rightarrow> search_hubs e origin dest engine allowed_modes hbs results1 w1)"

fun search_direct ::
  "env \<Rightarrow> point \<Rightarrow> point \<Rightarrow> string \<Rightarrow> string list \<Rightarrow> candidate list \<Rightarrow> world
     \<Rightarrow> py_error + (candidate list \<times> world)" where
  "search_direct e origin dest engine [] results w = Inr (results, w)"
| "search_direct e origin dest engine (m # ms) results w =
     (case eval_candidate_direct e origin dest m engine w of
        Inl err \<Rightarrow> Inl err
      | Inr ((segs, tot), w1) \<Rightarrow>
          search_direct e origin dest engine ms
            (results @ [\<lparr>hub = None, modes = [m], segments = segs, totals = tot,
                          score_norm_co2 = None, score_norm_cost = None\<rparr>]) w1)"

text \<open>
  The built-ins \<^verbatim>\<open>min\<close> and \<^verbatim>\<open>max\<close> over a non-empty sequence: the running
  best is replaced only by a strictly smaller (larger) item, so the first of several
  equal items is returned.
\<close>

fun min_from :: "('a \<Rightarrow> real) \<Rightarrow> 'a \<Rightarrow> 'a list \<Rightarrow> 'a" where
  "min_from f best [] = best"
| "min_from f best (x # xs) = min_from f (if f x < f best then x else best) xs"

fun max_from :: "('a \<Rightarrow> real) \<Rightarrow> 'a \<Rightarrow> 'a list \<Rightarrow> 'a" where
  "max_from f best [] = best"
| "max_from f best (x # xs) = max_from f (if f best < f x then x else best) xs"

definition norm_score :: "real \<Rightarrow> real \<Rightarrow> real \<Rightarrow> real" where
  "norm_score x lo hi = (if hi = lo then 0 else (x - lo) / (hi - lo))"

record city_obj =
  city :: string
  central_hub :: node
  micro_hubs :: "node list"

record search_result =
  all_results :: "candidate list"
  min_co2 :: "candidate option"
  min_cost :: "candidate option"
  best_combo :: "candidate option"

text \<open>
  Lines 424 to 438 of \<^verbatim>\<open>search_best_routes\<close>. The two minima are picked before the
  scores are written, but they are the same dictionaries that the last loop then
  updates in place, so the returned minima carry their scores. The value lists are
  split into the first value and the rest, the list being non-empty here.
\<close>

definition select_and_score :: "candidate list \<Rightarrow> search_result" where
  "select_and_score results =
     (case results of
        [] \<Rightarrow> \<lparr>all_results = [], min_co2 = None, min_cost = None, best_combo = None\<rparr>
      | r0 # rest \<Rightarrow>
          (let best_co2 = min_from (\<lambda>r. co2_kg (totals r)) r0 rest;
               best_cost = min_from (\<lambda>r. cost (totals r)) r0 rest;
               co2_0 = co2_kg (totals r0);
               co2_vals = map (\<lambda>r. co2_kg (totals r)) rest;
               cost_0 = cost (totals r0);
               cost_vals = map (\<lambda>r. cost (totals r)) rest;
               cmin = min_from id co2_0 co2_vals;
               cmax = max_from id co2_0 co2_vals;
               kmin = min_from id cost_0 cost_vals;
               kmax = max_from id cost_0 cost_vals;
               scored = (\<lambda>r. r\<lparr>score_norm_co2 := Some (norm_score (co2_kg (totals r)) cmin cmax),
                                score_norm_cost := Some (norm_score (cost (totals r)) kmin kmax)\<rparr>)
           in \<lparr>all_results = map scored results, min_co2 = Some (scored best_co2),
                min_cost = Some (scored best_cost), best_combo = None\<rparr>))"

definition search_best_routes ::
  "env \<Rightarrow> string \<Rightarrow> city_obj \<Rightarrow> point \<Rightarrow> point \<Rightarrow> string \<Rightarrow> bool \<Rightarrow> node option \<Rightarrow> world
     \<Rightarrow> py_error + (search_result \<times> world)" where
  "search_best_routes e city_name cobj origin dest engine via_hub fixed_hub w =
     (case map_of CITY_MODE_CAPS city_name of
        None \<Rightarrow> Inl KeyError
      | Some caps \<Rightarrow>
          (case (if via_hub
                 then search_hubs e origin dest engine (allowed caps)
                        (case fixed_hub of Some h \<Rightarrow> [h] | None \<Rightarrow> micro_hubs cobj) [] w
                 else search_direct e origin dest engine (allowed caps) [] w) of
             Inl err \<Rightarrow> Inl err
           | Inr (results, w1) \<Rightarrow> Inr (select_and_score results, w1)))"

text \<open>
  \<^verbatim>\<open>pick_best_combo\<close>. The key of a candidate needs both scores; a candidate
  without one raises \<^verbatim>\<open>KeyError\<close>.
\<close>

definition combo_key :: "real \<Rightarrow> candidate \<Rightarrow> real option" where
  "combo_key wt r =
     (case (score_norm_cost r, score_norm_co2 r) of
        (Some k, Some c) \<Rightarrow> Some (wt * k + (1 - wt) * c)
      | _ \<Rightarrow> None)"

definition pick_best_combo :: "search_result \<Rightarrow> real \<Rightarrow> py_error + candidate option" where
  "pick_best_combo results_dict weight_cost =
     (let res = all_results results_dict
      in if res = [] then Inr None
         else (let wt = max 0 (min 1 weight_cost)
               in (case those (map (\<lambda>r. map_option (\<lambda>v. (v, r)) (combo_key wt r)) res) of
                     None \<Rightarrow> Inl KeyError
                   | Some [] \<Rightarrow> Inr None
                   | Some (p0 # ps) \<Rightarrow> Inr (Some (snd (min_from fst p0 ps))))))"

subsection \<open>ESG dashboard metrics\<close>

text \<open>
  A Python dictionary keeps its keys in insertion order: an association list, where
  storing under a present key replaces the value in place and a new key goes last
  (\<^const>\<open>AList.update\<close>).
\<close>

fun aggregate_loop :: "segment list \<Rightarrow> (string \<times> real) list \<Rightarrow> (string \<times> real) list" where
  "aggregate_loop [] agg = agg"
| "aggregate_loop (s # ss) agg =
     aggregate_loop ss
       (AList.update (mode s)
          ((case map_of agg (mode s) of None \<Rightarrow> 0 | Some v \<Rightarrow> v) + distance_km s) agg)"

definition aggregate_mode_km :: "segment list \<Rightarrow> (string \<times> real) list" where
  "aggregate_mode_km segs = aggregate_loop segs []"

definition default_esg :: esg_factors where
  "default_esg = \<lparr>fuel_l_per_km = 0.0, electricity_kwh_per_km = 0.0, road_space_eq = 1.0,
                   noise_idx = 0.5, safety_risk = 0.5, capex_k = None\<rparr>"

record esg_metrics =
  fuel_l :: real
  kwh :: real
  road_space_eq_km :: real
  noise_index_km :: real
  safety_risk_km :: real

fun esg_loop :: "(string \<times> real) list \<Rightarrow> esg_metrics \<Rightarrow> esg_metrics" where
  "esg_loop [] acc = acc"
| "esg_loop ((m, km) # items) acc =
     (let f = (case map_of MODE_ESG m of Some f \<Rightarrow> f | None \<Rightarrow> default_esg)
      in esg_loop items
           \<lparr>fuel_l = fuel_l acc + fuel_l_per_km f * km,
            kwh = kwh acc + electricity_kwh_per_km f * km,
            road_space_eq_km = road_space_eq_km acc + road_space_eq f * km,
            noise_index_km = noise_index_km acc + noise_idx f * km,
            safety_risk_km = safety_risk_km acc + safety_risk f * km\<rparr>)"

definition esg_metrics_for_segments :: "segment list \<Rightarrow> esg_metrics" where
  "esg_metrics_for_segments segs =
     esg_loop (aggregate_mode_km segs)
       \<lparr>fuel_l = 0, kwh = 0, road_space_eq_km = 0, noise_index_km = 0, safety_risk_km = 0\<rparr>"

subsection \<open>Nearest micro-hub and baseline\<close>

fun nearest_loop :: "node list \<Rightarrow> point \<Rightarrow> node option \<Rightarrow> real \<Rightarrow> node option" where
  "nearest_loop [] dest best best_d = best"
| "nearest_loop (h # hs) dest best best_d =
     (let d = haversine_km (lat h, lon h) dest
      in if d < best_d then nearest_loop hs dest (Some h) d
         else nearest_loop hs dest best best_d)"

definition nearest_micro :: "city_obj \<Rightarrow> point \<Rightarrow> node option" where
  "nearest_micro cobj dest = nearest_loop (micro_hubs cobj) dest None (10 ^ 18)"

text \<open>Decimal digits of a natural number, for the f-string of the transfer legs.\<close>

fun str_nat :: "nat \<Rightarrow> string" where
  "str_nat n = (if n < 10 then [char_of (48 + n)] else str_nat (n div 10) @ [char_of (48 + n mod 10)])"

text \<open>The en dash of the transfer labels, as its three UTF-8 bytes.\<close>

definition en_dash :: string where
  "en_dash = [CHR 0xE2, CHR 0x80, CHR 0x93]"

text \<open>
  The loop over \<^verbatim>\<open>enumerate(chain[1:-1])\<close> of \<^verbatim>\<open>make_baseline\<close>: a transfer leg of
  half a kilometre at the hub for every inner mode of the chain.
\<close>

fun transfer_legs :: "node \<Rightarrow> nat \<Rightarrow> string list \<Rightarrow> py_error + segment list" where
  "transfer_legs hb idx [] = Inr []"
| "transfer_legs hb idx (m # ms) =
     (case impact_for_leg 0.5 m of
        Inl err \<Rightarrow> Inl err
      | Inr (t_mid, e_mid, c_mid) \<Rightarrow>
          (case transfer_legs hb (idx + 1) ms of
             Inl err \<Rightarrow> Inl err
           | Inr segs \<Rightarrow>
               Inr (\<lparr>distance_km = py_round 0.5 3, time_h = t_mid, co2_kg = e_mid, cost = c_mid,
                     seg_from = name hb @ '' '' @ en_dash @ '' Xfer '' @ str_nat (idx + 1),
                     seg_to = name hb @ '' '' @ en_dash @ '' Xfer '' @ str_nat (idx + 1) @ '' end'',
                     mode = m,
                     geometry = [(lat hb, lon hb), (lat hb + 0.001, lon hb + 0.001)]\<rparr> # segs)))"

text \<open>
  \<^verbatim>\<open>make_baseline\<close> reads the module globals \<^verbatim>\<open>city_name\<close>, \<^verbatim>\<open>city\<close> and
  \<^verbatim>\<open>engine\<close>; they are parameters here. The list comprehension looks the city up
  once per element of the chain, so an unknown city raises only for a non-empty chain.
  With no hub at all, \<^verbatim>\<open>chosen_hub.lat\<close> raises \<^verbatim>\<open>AttributeError\<close>.
\<close>

definition filter_chain :: "string \<Rightarrow> string list \<Rightarrow> py_error + string list" where
  "filter_chain city_name chain =
     (if chain = [] then Inr []
      else (case map_of CITY_MODE_CAPS city_name of
              None \<Rightarrow> Inl KeyError
            | Some caps \<Rightarrow>
                Inr (filter (\<lambda>m. m \<in> set (allowed caps) \<and> map_of MODES m \<noteq> None) chain)))"

definition sum_totals :: "segment list \<Rightarrow> quantities" where
  "sum_totals segs =
     \<lparr>distance_km = sum_list (map distance_km segs), time_h = sum_list (map time_h segs),
      co2_kg = sum_list (map co2_kg segs), cost = sum_list (map cost segs)\<rparr>"

definition make_baseline ::
  "env \<Rightarrow> string \<Rightarrow> city_obj \<Rightarrow> string \<Rightarrow> point \<Rightarrow> point \<Rightarrow> string list \<Rightarrow> bool \<Rightarrow> node option
     \<Rightarrow> world \<Rightarrow> py_error + ((segment list \<times> quantities \<times> node option) \<times> world)" where
  "make_baseline e city_name cobj engine origin dest chain via_hub hub_override w =
     (case filter_chain city_name chain of
        Inl err \<Rightarrow> Inl err
      | Inr kept \<Rightarrow>
     (case (if kept = [] then [''truck''] else kept) of
        [] \<Rightarrow> Inl IndexError
      | m0 # later \<Rightarrow>
          if via_hub then
            (case (case hub_override of Some h \<Rightarrow> Some h | None \<Rightarrow> nearest_micro cobj dest) of
               None \<Rightarrow> Inl AttributeError
             | Some chosen \<Rightarrow>
            (case route_with_engine e origin (lat chosen, lon chosen) m0 MODES engine w of
               Inl err \<Rightarrow> Inl err
             | Inr ((d1, g1), w1) \<Rightarrow>
            (case impact_for_leg d1 m0 of
               Inl err \<Rightarrow> Inl err
             | Inr (t1, e1, c1) \<Rightarrow>
            (case transfer_legs chosen 0 (butlast later) of
               Inl err \<Rightarrow> Inl err
             | Inr mids \<Rightarrow>
            (let last_mode = (if later = [] then m0 else last later)
             in
            (case route_with_engine e (lat chosen, lon chosen) dest last_mode MODES engine w1 of
               Inl err \<Rightarrow> Inl err
             | Inr ((d2, g2), w2) \<Rightarrow>
            (case impact_for_leg d2 last_mode of
               Inl err \<Rightarrow> Inl err
             | Inr (t2, e2, c2) \<Rightarrow>
                 (let segs =
                    [\<lparr>distance_km = py_round d1 3, time_h = t1, co2_kg = e1, cost = c1,
                      seg_from = ''Start'', seg_to = name chosen, mode = m0, geometry = g1\<rparr>]
                    @ mids @
                    [\<lparr>distance_km = py_round d2 3, time_h = t2, co2_kg = e2, cost = c2,
                      seg_from = name chosen, seg_to = ''Destination'', mode = last_mode,
                      geometry = g2\<rparr>]
                  in Inr ((segs, sum_totals segs, Some chosen), w2)))))))))
          else
            (case route_with_engine e origin dest m0 MODES engine w of
               Inl err \<Rightarrow> Inl err
             | Inr ((d, g), w1) \<Rightarrow>
            (case impact_for_leg d m0 of
               Inl err \<Rightarrow> Inl err
             | Inr (t, em, c) \<Rightarrow>
                 (let segs =
                    [\<lparr>distance_km = py_round d 3, time_h = t, co2_kg = em, cost = c,
                      seg_from = ''Start'', seg_to = ''Destination'', mode = m0, geometry = g\<rparr>]
                  in Inr ((segs, sum_totals segs, None), w1))))))"

subsection \<open>City graph\<close>

text \<open>
  \<^verbatim>\<open>build_city_graph\<close>: the loop over the cities, the grouping of the micro-hub rows
  by city, the loop over the groups with its inner loop over the first ten rows of a
  group, and the final filter. The dictionaries \<^verbatim>\<open>graph\<close> and \<^verbatim>\<open>by_city\<close> are
  association lists in insertion order.
\<close>

type_synonym graph = "(string \<times> city_obj) list"

fun cities_loop :: "env \<Rightarrow> (string \<times> string \<times> ustring) list \<Rightarrow> graph \<Rightarrow> world \<Rightarrow> graph \<times> world" where
  "cities_loop e [] g w = (g, w)"
| "cities_loop e ((c, hub_name, hub_addr) # rest) g w =
     (case geocode_address e hub_addr w of
        (None, w1) \<Rightarrow> cities_loop e rest g w1
      | (Some ch_geo, w1) \<Rightarrow>
          cities_loop e rest
            (AList.update c
               \<lparr>city = c,
                central_hub = \<lparr>key = ''CENTRAL'', name = hub_name, lat = fst ch_geo,
                                lon = snd ch_geo, kind = ''depot''\<rparr>,
                micro_hubs = []\<rparr> g) w1)"

fun group_rows ::
  "(string \<times> string \<times> string \<times> ustring) list \<Rightarrow> (string \<times> (string \<times> string \<times> ustring) list) list
     \<Rightarrow> (string \<times> (string \<times> string \<times> ustring) list) list" where
  "group_rows [] by_city = by_city"
| "group_rows ((c, k, nm, addr) # rest) by_city =
     group_rows rest
       (AList.update c ((case map_of by_city c of None \<Rightarrow> [] | Some rows \<Rightarrow> rows) @ [(k, nm, addr)])
          by_city)"

fun rows_loop :: "env \<Rightarrow> string \<Rightarrow> (string \<times> string \<times> ustring) list \<Rightarrow> graph \<Rightarrow> world \<Rightarrow> graph \<times> world" where
  "rows_loop e c [] g w = (g, w)"
| "rows_loop e c ((k, nm, addr) # rest) g w =
     (case geocode_address e addr w of
        (None, w1) \<Rightarrow> rows_loop e c rest g w1
      | (Some mh_geo, w1) \<Rightarrow>
          rows_loop e c rest
            (AList.map_entry c
               (\<lambda>v. v\<lparr>micro_hubs := micro_hubs v @
                        [\<lparr>key = k, name = nm, lat = fst mh_geo, lon = snd mh_geo, kind = ''hub''\<rparr>]\<rparr>)
               g) w1)"

fun groups_loop ::
  "env \<Rightarrow> (string \<times> (string \<times> string \<times> ustring) list) list \<Rightarrow> graph \<Rightarrow> world \<Rightarrow> graph \<times> world" where
  "groups_loop e [] g w = (g, w)"
| "groups_loop e ((c, rows) # rest) g w =
     (if map_of g c = None then groups_loop e rest g w
      else (case rows_loop e c (take 10 rows) g w of
              (g1, w1) \<Rightarrow> groups_loop e rest g1 w1))"

definition build_city_graph ::
  "env \<Rightarrow> (string \<times> string \<times> ustring) list \<Rightarrow> (string \<times> string \<times> string \<times> ustring) list \<Rightarrow> world
     \<Rightarrow> graph \<times> world" where
  "build_city_graph e cities micro_rows w =
     (case cities_loop e cities [] w of
        (g, w1) \<Rightarrow>
          (case groups_loop e (group_rows micro_rows []) g w1 of
             (g2, w2) \<Rightarrow> (filter (\<lambda>kv. micro_hubs (snd kv) \<noteq> []) g2, w2)))"

subsection \<open>Vocabulary of the properties\<close>

text \<open>An event that is an HTTP request, and an answer after which the geocoder retries.\<close>

definition is_request :: "event \<Rightarrow> bool" where
  "is_request ev = (case ev of Sleep _ \<Rightarrow> False | _ \<Rightarrow> True)"

definition retryable :: "geo_reply \<Rightarrow> bool" where
  "retryable r = (case r of Ok_found _ _ \<Rightarrow> False | Ok_empty \<Rightarrow> False | _ \<Rightarrow> True)"



definition cand_key :: "candidate \<Rightarrow> node option \<times> string list" where
  "cand_key r = (hub r, modes r)"

definition keeps_file :: "world \<Rightarrow> py_error + ('a \<times> world) \<Rightarrow> bool" where
  "keeps_file w res = (case res of Inl err \<Rightarrow> True | Inr (x, w') \<Rightarrow> cache_file w' = cache_file w)"

text \<open>
  The CO2 and cost totals of a candidate; min-max normalisation of a value within a
  finite set of values, 0 when the set has a single value; and a candidate with both
  scores taken over a list of candidates.
\<close>

definition spec_norm :: "real set \<Rightarrow> real \<Rightarrow> real" where
  "spec_norm V x = (if Max V = Min V then 0 else (x - Min V) / (Max V - Min V))"

definition co2_of :: "candidate \<Rightarrow> real" where
  "co2_of r = co2_kg (totals r)"

definition cost_of :: "candidate \<Rightarrow> real" where
  "cost_of r = cost (totals r)"

definition scored_spec :: "candidate list \<Rightarrow> candidate \<Rightarrow> candidate" where
  "scored_spec rs r =
     r\<lparr>score_norm_co2 := Some (spec_norm (co2_of ` set rs) (co2_of r)),
       score_norm_cost := Some (spec_norm (cost_of ` set rs) (cost_of r))\<rparr>"

text \<open>
  The ESG factors that apply to a mode (those of \<^verbatim>\<open>MODE_ESG\<close>, or the defaults),
  the total distance a list of segments travels in a mode, and a sample segment.
\<close>

definition esg_factors_of :: "string \<Rightarrow> esg_factors" where
  "esg_factors_of m = (case map_of MODE_ESG m of Some f \<Rightarrow> f | None \<Rightarrow> default_esg)"

definition mode_km :: "segment list \<Rightarrow> string \<Rightarrow> real" where
  "mode_km segs m = sum_list (map distance_km (filter (\<lambda>s. mode s = m) segs))"

definition plain_leg :: "string \<Rightarrow> real \<Rightarrow> segment" where
  "plain_leg m d = \<lparr>distance_km = d, time_h = 0, co2_kg = 0, cost = 0, seg_from = ''Start'',
                     seg_to = ''Destination'', mode = m, geometry = []\<rparr>"

text \<open>
  Sample surroundings for the examples: both services down and a writable disk, and a
  world with no cache file and nothing done yet.
\<close>

definition env_down :: env where
  "env_down = \<lparr>nominatim = (\<lambda>tr q. No_response), osrm = (\<lambda>tr p a b. Osrm_unavailable),
               disk_write = (\<lambda>tr. Written)\<rparr>"

definition world_fresh :: world where
  "world_fresh = \<lparr>cache_file = Absent, trace = []\<rparr>"

text \<open>
  A routing service that answers every query with a route of 5 km between the two
  points; a city object for Nairobi with two of its micro-hubs; and the candidate of a
  direct 5 km leg.
\<close>

definition env_osrm_5km :: env where
  "env_osrm_5km = \<lparr>nominatim = (\<lambda>tr q. Ok_empty),
                    osrm = (\<lambda>tr p a b. Osrm_route 5000 [(snd a, fst a), (snd b, fst b)]),
                    disk_write = (\<lambda>tr. Written)\<rparr>"

definition hub_westlands :: node where
  "hub_westlands = \<lparr>key = ''NRB-MH1'', name = ''Westlands'', lat = -1.27, lon = 36.81, kind = ''hub''\<rparr>"

definition hub_karen :: node where
  "hub_karen = \<lparr>key = ''NRB-MH6'', name = ''Karen'', lat = -1.32, lon = 36.71, kind = ''hub''\<rparr>"

definition nairobi :: city_obj where
  "nairobi = \<lparr>city = ''Nairobi, Kenya'',
              central_hub = \<lparr>key = ''CENTRAL'', name = ''Mombasa Road Central Hub'', lat = -1.32,
                              lon = 36.85, kind = ''depot''\<rparr>,
              micro_hubs = [hub_westlands, hub_karen]\<rparr>"

definition direct_5km ::
  "string \<Rightarrow> real \<Rightarrow> real \<Rightarrow> real \<Rightarrow> real option \<Rightarrow> real option \<Rightarrow> candidate" where
  "direct_5km m t em c s_co2 s_cost =
     \<lparr>hub = None, modes = [m],
      segments = [\<lparr>distance_km = 5, time_h = t, co2_kg = em, cost = c, seg_from = ''Start'',
                   seg_to = ''Destination'', mode = m, geometry = [(0, 0), (0, 1)]\<rparr>],
      totals = \<lparr>distance_km = 5, time_h = t, co2_kg = em, cost = c\<rparr>,
      score_norm_co2 = s_co2, score_norm_cost = s_cost\<rparr>"

text \<open>
  The address \<^verbatim>\<open>Karen\<close> as code points; the same with a no-break space and a
  space before it and an ideographic space and a line feed after it; and a world whose
  cache file holds one entry for it.
\<close>

definition karen :: ustring where
  "karen = [0x4B, 0x61, 0x72, 0x65, 0x6E]"

definition karen_padded :: ustring where
  "karen_padded = [0xA0, 0x20] @ karen @ [0x3000, 0x0A]"

definition world_cached :: "point option \<Rightarrow> world" where
  "world_cached v = \<lparr>cache_file = Stored [karen \<mapsto> v], trace = []\<rparr>"

text \<open>New York with no micro-hub, and the result of the direct search there over 5 km legs.\<close>

definition new_york :: city_obj where
  "new_york = \<lparr>city = ''New York City, USA'',
               central_hub = \<lparr>key = ''CENTRAL'', name = ''Midtown West Central Hub'', lat = 40.76,
                               lon = -74.0, kind = ''depot''\<rparr>,
               micro_hubs = []\<rparr>"

definition new_york_result :: search_result where
  "new_york_result =
     \<lparr>all_results =
        [direct_5km ''autonomous_robot'' (5 / 6) 0.05 5.620835 (Some 0) (Some 1),
         direct_5km ''cargo_bike'' (5 / 16) 0.165 2.11844 (Some (23 / 812)) (Some 0),
         direct_5km ''cargo_bus'' (100 / 469) 4.11 3.27595 (Some 1) (Some (231502 / 700479)),
         direct_5km ''small_van'' (100 / 469) 1.05 2.34095 (Some (50 / 203)) (Some (14834 / 233493)),
         direct_5km ''truck'' (100 / 469) 2.24 3.98595 (Some (219 / 406)) (Some (373502 / 700479))],
      min_co2 = Some (direct_5km ''autonomous_robot'' (5 / 6) 0.05 5.620835 (Some 0) (Some 1)),
      min_cost = Some (direct_5km ''cargo_bike'' (5 / 16) 0.165 2.11844 (Some (23 / 812)) (Some 0)),
      best_combo = None\<rparr>"

section \<open>Properties\<close>

lemma MODES_speed: "map_of MODES k = Some m \<Longrightarrow> 1 / 1000000 \<le> speed_kph m"
  by (auto simp: MODES_def split: if_splits)

text \<open>
  Claim C5. For every key of \<^verbatim>\<open>MODES\<close> and every distance (non-negative or not),
  \<^verbatim>\<open>impact_for_leg\<close> returns the distance divided by \<^verbatim>\<open>max(speed_kph, 1e-6)\<close>,
  the emission factor times the distance, and the sum of the two cost factors
  times the distance. The divisor is never zero, every configured speed is at
  least \<^verbatim>\<open>1e-6\<close>, and so the time is the distance divided by the speed.
\<close>

theorem impact_for_leg_exact:
  assumes "map_of MODES mode_key = Some m"
  shows "impact_for_leg d mode_key =
           Inr (d / max (speed_kph m) (1 / 1000000), emission_kg_per_km m * d,
                (cost_trans m + cost_labour m) * d)
         \<and> max (speed_kph m) (1 / 1000000) \<noteq> 0
         \<and> 1 / 1000000 \<le> speed_kph m
         \<and> impact_for_leg d mode_key =
           Inr (d / speed_kph m, emission_kg_per_km m * d, (cost_trans m + cost_labour m) * d)"
proof -
  have s: "1 / 1000000 \<le> speed_kph m" using assms by (rule MODES_speed)
  then have mx: "max (speed_kph m) (1 / 1000000) = speed_kph m" by simp
  have nz: "max (speed_kph m) (1 / 1000000) \<noteq> 0" using s unfolding mx by simp
  show ?thesis using assms s nz by (simp add: impact_for_leg_def Let_def mx)
qed

theorem impact_for_leg_exact_witness:
  "map_of MODES ''cargo_bike'' \<noteq> None
   \<and> impact_for_leg 2 ''cargo_bike'' = Inr (1 / 8, 0.066, 0.847376)"
proof -
  have h: "map_of MODES ''cargo_bike'' = Some \<lparr>label = ''Cargo Bike'', emission_kg_per_km = 0.033,
       cost_trans = 0.004, cost_labour = 0.419688, speed_kph = 16.0,
       osrm_profile = Some ''cycling''\<rparr>"
    by (simp add: MODES_def)
  show ?thesis using impact_for_leg_exact [OF h, of 2] h by simp
qed

subsection \<open>Geocoder\<close>

lemma write_cache_trace [simp]: "trace (write_cache e c w) = trace w"
  by (simp add: write_cache_def)

lemma sleep_simps [simp]:
  "trace (sleep s w) = trace w @ [Sleep s]" "cache_file (sleep s w) = cache_file w"
  by (simp_all add: sleep_def)

lemma http_nominatim_simps [simp]:
  "trace (snd (http_nominatim e q w)) = trace w @ [Http_nominatim q]"
  "cache_file (snd (http_nominatim e q w)) = cache_file w"
  "fst (http_nominatim e q w) = nominatim e (trace w) q"
  by (simp_all add: http_nominatim_def)

lemma write_cache_file:
  "cache_file (write_cache e c w) = after_write (disk_write e (trace w)) c (cache_file w)"
  by (simp add: write_cache_def)

lemma geocode_attempts_effect:
  "(r, w') = geocode_attempts e k c as w \<Longrightarrow>
     (\<exists>evs. trace w' = trace w @ evs
            \<and> length (filter is_request evs) \<le> length as
            \<and> (as \<noteq> [] \<longrightarrow> filter is_request evs \<noteq> []))
     \<and> cache_file w' = after_write (disk_write e (trace w')) (c(k \<mapsto> r)) (cache_file w)"
proof (induction as arbitrary: w)
  case Nil
  then have r: "r = None" and w': "w' = write_cache e (c(k \<mapsto> None)) w" by simp_all
  have "cache_file w' = after_write (disk_write e (trace w')) (c(k \<mapsto> r)) (cache_file w)"
    unfolding r w' write_cache_file write_cache_trace ..
  moreover have "trace w' = trace w @ []" unfolding w' by simp
  ultimately show ?case by (auto simp: fun_upd_def)
next
  case (Cons attempt rest)
  obtain rp w1 where h: "http_nominatim e k w = (rp, w1)" by (cases "http_nominatim e k w")
  then have t1: "trace w1 = trace w @ [Http_nominatim k]" and c1: "cache_file w1 = cache_file w"
    using http_nominatim_simps(1,2)[of e k w] by simp_all
  show ?case
  proof (cases rp)
    case No_response
    with Cons.prems h have "(r, w') = geocode_attempts e k c rest (sleep (0.5 * 2 ^ attempt) w1)" by simp
    from Cons.IH[OF this] show ?thesis using t1 c1 by (auto simp: is_request_def)
  next
    case Too_many_requests
    with Cons.prems h have "(r, w') = geocode_attempts e k c rest (sleep (1 + real attempt * 2) w1)" by simp
    from Cons.IH[OF this] show ?thesis using t1 c1 by (auto simp: is_request_def)
  next
    case (Ok_found la lo)
    with Cons.prems h have r: "r = Some (la, lo)"
      and w': "w' = write_cache e (c(k \<mapsto> Some (la, lo))) w1" by simp_all
    have "cache_file w' = after_write (disk_write e (trace w')) (c(k \<mapsto> r)) (cache_file w)"
      unfolding r w' write_cache_file write_cache_trace c1 ..
    moreover have "trace w' = trace w @ [Http_nominatim k]" unfolding w' using t1 by simp
    ultimately show ?thesis by (auto simp: is_request_def fun_upd_def)
  next
    case Ok_empty
    with Cons.prems h have r: "r = None"
      and w': "w' = write_cache e (c(k \<mapsto> None)) w1" by simp_all
    have "cache_file w' = after_write (disk_write e (trace w')) (c(k \<mapsto> r)) (cache_file w)"
      unfolding r w' write_cache_file write_cache_trace c1 ..
    moreover have "trace w' = trace w @ [Http_nominatim k]" unfolding w' using t1 by simp
    ultimately show ?thesis by (auto simp: is_request_def fun_upd_def)
  next
    case Ok_malformed
    with Cons.prems h have "(r, w') = geocode_attempts e k c rest (sleep (0.5 * 2 ^ attempt) w1)" by simp
    from Cons.IH[OF this] show ?thesis using t1 c1 by (auto simp: is_request_def)
  next
    case Http_error
    with Cons.prems h have "(r, w') = geocode_attempts e k c rest (sleep (0.5 * 2 ^ attempt) w1)" by simp
    from Cons.IH[OF this] show ?thesis using t1 c1 by (auto simp: is_request_def)
  qed
qed

lemma geocode_attempts_exhausted:
  "\<forall>tr. retryable (nominatim e tr k) \<Longrightarrow> (r, w') = geocode_attempts e k c as w \<Longrightarrow>
     r = None \<and> (\<exists>evs. trace w' = trace w @ evs \<and> length (filter is_request evs) = length as
     \<and> length (filter (\<lambda>ev. \<not> is_request ev) evs) = length as)"
proof (induction as arbitrary: w)
  case Nil
  then show ?case by auto
next
  case (Cons attempt rest)
  obtain rp w1 where h: "http_nominatim e k w = (rp, w1)" by (cases "http_nominatim e k w")
  then have t1: "trace w1 = trace w @ [Http_nominatim k]" and rp: "rp = nominatim e (trace w) k"
    using http_nominatim_simps(1,3)[of e k w] by simp_all
  have rt: "retryable rp" using Cons.prems(1) rp by simp
  then obtain s where "(r, w') = geocode_attempts e k c rest (sleep s w1)"
    using Cons.prems(2) h by (cases rp) (auto simp: retryable_def)
  from Cons.IH[OF Cons.prems(1) this] show ?case using t1
    by (auto simp: is_request_def)
qed

lemma strip_spec:
  "\<exists>pre post. addr = pre @ strip addr @ post
      \<and> (\<forall>ch\<in>set pre. py_isspace ch) \<and> (\<forall>ch\<in>set post. py_isspace ch)
      \<and> (strip addr \<noteq> [] \<longrightarrow> \<not> py_isspace (hd (strip addr)) \<and> \<not> py_isspace (last (strip addr)))"
proof -
  let ?P = py_isspace
  let ?t = "dropWhile ?P addr"
  let ?pre = "takeWhile ?P addr"
  let ?post = "rev (takeWhile ?P (rev ?t))"
  have k: "strip addr = rev (dropWhile ?P (rev ?t))" by (simp add: strip_def)
  have "?t = rev (takeWhile ?P (rev ?t) @ dropWhile ?P (rev ?t))"
    by (simp only: takeWhile_dropWhile_id rev_rev_ident)
  also have "\<dots> = rev (dropWhile ?P (rev ?t)) @ rev (takeWhile ?P (rev ?t))"
    by (simp only: rev_append)
  finally have t: "?t = strip addr @ ?post" by (simp only: k)
  have a: "addr = ?pre @ strip addr @ ?post" using t by (metis takeWhile_dropWhile_id)
  have p1: "\<forall>ch\<in>set ?pre. ?P ch" by (auto dest: set_takeWhileD)
  have p2: "\<forall>ch\<in>set ?post. ?P ch" by (auto dest: set_takeWhileD)
  have ends: "\<not> ?P (hd (strip addr)) \<and> \<not> ?P (last (strip addr))" if ne: "strip addr \<noteq> []"
  proof -
    have d: "dropWhile ?P (rev ?t) \<noteq> []" using ne k by simp
    have "last (strip addr) = hd (dropWhile ?P (rev ?t))" using d by (simp add: k last_rev)
    then have l: "\<not> ?P (last (strip addr))" using hd_dropWhile[OF d] by simp
    have tne: "?t \<noteq> []" using t ne by (metis Nil_is_append_conv)
    have "hd (strip addr) = hd ?t" using t ne by (metis hd_append2)
    then have h: "\<not> ?P (hd (strip addr))" using hd_dropWhile[OF tne] by simp
    show ?thesis using h l by simp
  qed
  show ?thesis using a p1 p2 ends by blast
qed



text \<open>
  Claim C6. With \<open>k\<close> the stripped address (the address without its leading and
  trailing white space) and \<open>c\<close> the dictionary of the cache file (empty when the file
  is missing or unreadable): an empty \<open>k\<close> gives \<^verbatim>\<open>None\<close> and changes nothing; a
  \<open>k\<close> that is a key of the stored dictionary gives the stored value (a pair or
  \<^verbatim>\<open>None\<close>) and changes nothing, so no request is sent; a call sends at most four
  requests, and sends one only on a cache miss; on a miss the write stores the result
  under \<open>k\<close>, unless it fails; and when every answer is one the code retries on,
  the result is \<^verbatim>\<open>None\<close> after exactly four requests, each followed by a sleep.
\<close>

theorem geocode_address_cache_then_retry:
  fixes e :: env and addr :: ustring and w :: world
  defines "k \<equiv> strip addr"
    and "c \<equiv> (case cache_file w of Stored d \<Rightarrow> d | Absent \<Rightarrow> Map.empty | Unreadable \<Rightarrow> Map.empty)"
    and "r \<equiv> fst (geocode_address e addr w)"
    and "w' \<equiv> snd (geocode_address e addr w)"
  shows "(\<exists>pre post. addr = pre @ k @ post
             \<and> (\<forall>ch\<in>set pre. py_isspace ch) \<and> (\<forall>ch\<in>set post. py_isspace ch)
             \<and> (k \<noteq> [] \<longrightarrow> \<not> py_isspace (hd k) \<and> \<not> py_isspace (last k)))
       \<and> (k = [] \<longrightarrow> r = None \<and> w' = w)
       \<and> (\<forall>d v. k \<noteq> [] \<and> cache_file w = Stored d \<and> d k = Some v \<longrightarrow> r = v \<and> w' = w)
       \<and> (\<exists>evs. trace w' = trace w @ evs \<and> length (filter is_request evs) \<le> 4
                \<and> (filter is_request evs \<noteq> [] \<longrightarrow> k \<noteq> [] \<and> c k = None))
       \<and> (k \<noteq> [] \<and> c k = None \<longrightarrow>
            cache_file w' =
              (case disk_write e (trace w') of
                 Written \<Rightarrow> Stored (c(k \<mapsto> r))
               | Open_failed \<Rightarrow> cache_file w
               | Dump_failed \<Rightarrow> Unreadable))
       \<and> (k \<noteq> [] \<and> c k = None \<and> (\<forall>tr. retryable (nominatim e tr k)) \<longrightarrow>
            r = None \<and> (\<exists>evs. trace w' = trace w @ evs
                             \<and> length (filter is_request evs) = 4
                             \<and> length (filter (\<lambda>ev. \<not> is_request ev) evs) = 4))"
proof -
  have c: "c = load_cache (cache_file w)"
    by (simp add: c_def load_cache_def split: file_state.splits)
  have sp: "\<exists>pre post. addr = pre @ k @ post
             \<and> (\<forall>ch\<in>set pre. py_isspace ch) \<and> (\<forall>ch\<in>set post. py_isspace ch)
             \<and> (k \<noteq> [] \<longrightarrow> \<not> py_isspace (hd k) \<and> \<not> py_isspace (last k))"
    unfolding k_def by (rule strip_spec)
  have hit: "r = None \<and> w' = w" if "k = []"
    using that by (simp add: r_def w'_def k_def geocode_address_def Let_def)
  have cached: "r = v \<and> w' = w" if "k \<noteq> []" "c k = Some v" for v
    using that by (simp add: r_def w'_def k_def c geocode_address_def Let_def)
  have stored: "r = v \<and> w' = w" if "k \<noteq> []" "cache_file w = Stored d" "d k = Some v" for d v
    using cached[OF that(1), of v] that(2,3) by (simp add: c_def)
  have miss: "(r, w') = geocode_attempts e k c [0..<4] w" if "k \<noteq> []" "c k = None"
    using that by (simp add: r_def w'_def k_def c geocode_address_def Let_def)
  have tr: "\<exists>evs. trace w' = trace w @ evs \<and> length (filter is_request evs) \<le> 4
                \<and> (filter is_request evs \<noteq> [] \<longrightarrow> k \<noteq> [] \<and> c k = None)"
  proof (cases "k \<noteq> [] \<and> c k = None")
    case True
    then show ?thesis using geocode_attempts_effect[OF miss] by auto
  next
    case False
    then have "w' = w" using hit cached by (cases "c k") auto
    then show ?thesis by simp
  qed
  have wr: "cache_file w' =
              (case disk_write e (trace w') of
                 Written \<Rightarrow> Stored (c(k \<mapsto> r))
               | Open_failed \<Rightarrow> cache_file w
               | Dump_failed \<Rightarrow> Unreadable)"
    if "k \<noteq> []" "c k = None"
    using geocode_attempts_effect[OF miss[OF that]] by (simp add: after_write_def)
  have ex: "r = None \<and> (\<exists>evs. trace w' = trace w @ evs
                             \<and> length (filter is_request evs) = 4
                             \<and> length (filter (\<lambda>ev. \<not> is_request ev) evs) = 4)"
    if "k \<noteq> []" "c k = None" "\<forall>tr. retryable (nominatim e tr k)"
    using geocode_attempts_exhausted[OF that(3) miss[OF that(1,2)]] by simp
  show ?thesis using sp hit stored tr wr ex by blast
qed

lemma strip_karen_padded: "strip karen_padded = karen"
  by (simp add: strip_def py_isspace_def karen_padded_def karen_def)

lemma karen_nonempty: "karen \<noteq> []"
  by (simp add: karen_def)

theorem geocode_address_cache_then_retry_witness:
  "strip karen_padded = karen
   \<and> geocode_address env_down karen_padded (world_cached (Some (-1.32, 36.71)))
       = (Some (-1.32, 36.71), world_cached (Some (-1.32, 36.71)))
   \<and> geocode_address env_down karen_padded (world_cached None) = (None, world_cached None)
   \<and> geocode_address env_down [0x3000, 0xA0] world_fresh = (None, world_fresh)
   \<and> fst (geocode_address env_down karen_padded world_fresh) = None
   \<and> cache_file (snd (geocode_address env_down karen_padded world_fresh)) = Stored [karen \<mapsto> None]
   \<and> trace (snd (geocode_address env_down karen_padded world_fresh))
       = [Http_nominatim karen, Sleep 0.5, Http_nominatim karen, Sleep 1,
          Http_nominatim karen, Sleep 2, Http_nominatim karen, Sleep 4]"
proof -
  note ne = karen_nonempty
  have hit1: "geocode_address env_down karen_padded (world_cached (Some (-1.32, 36.71)))
       = (Some (-1.32, 36.71), world_cached (Some (-1.32, 36.71)))"
  proof -
    have s: "cache_file (world_cached (Some (-1.32, 36.71))) = Stored [karen \<mapsto> Some (-1.32, 36.71)]"
      by (simp add: world_cached_def)
    have l: "[karen \<mapsto> Some (-1.32, 36.71 :: real)] (strip karen_padded) = Some (Some (-1.32, 36.71))"
      by (simp add: strip_karen_padded)
    from geocode_address_cache_then_retry
           [where e = env_down and addr = karen_padded and w = "world_cached (Some (-1.32, 36.71))"]
    have "\<forall>d v. strip karen_padded \<noteq> []
            \<and> cache_file (world_cached (Some (-1.32, 36.71))) = Stored d \<and> d (strip karen_padded) = Some v
          \<longrightarrow> fst (geocode_address env_down karen_padded (world_cached (Some (-1.32, 36.71)))) = v
            \<and> snd (geocode_address env_down karen_padded (world_cached (Some (-1.32, 36.71))))
                = world_cached (Some (-1.32, 36.71))"
      by blast
    then show ?thesis using s l ne by (simp add: strip_karen_padded prod_eq_iff)
  qed
  have hit2: "geocode_address env_down karen_padded (world_cached None) = (None, world_cached None)"
  proof -
    have s: "cache_file (world_cached None) = Stored [karen \<mapsto> None]"
      by (simp add: world_cached_def)
    have l: "[karen \<mapsto> (None :: point option)] (strip karen_padded) = Some None"
      by (simp add: strip_karen_padded)
    from geocode_address_cache_then_retry
           [where e = env_down and addr = karen_padded and w = "world_cached None"]
    have "\<forall>d v. strip karen_padded \<noteq> []
            \<and> cache_file (world_cached None) = Stored d \<and> d (strip karen_padded) = Some v
          \<longrightarrow> fst (geocode_address env_down karen_padded (world_cached None)) = v
            \<and> snd (geocode_address env_down karen_padded (world_cached None)) = world_cached None"
      by blast
    then show ?thesis using s l ne by (simp add: strip_karen_padded prod_eq_iff)
  qed
  have empty: "geocode_address env_down [0x3000, 0xA0] world_fresh = (None, world_fresh)"
  proof -
    have k: "strip [0x3000, 0xA0] = []" by (simp add: strip_def py_isspace_def)
    from geocode_address_cache_then_retry
           [where e = env_down and addr = "[0x3000, 0xA0]" and w = world_fresh]
    have "strip [0x3000, 0xA0] = [] \<longrightarrow>
            fst (geocode_address env_down [0x3000, 0xA0] world_fresh) = None
          \<and> snd (geocode_address env_down [0x3000, 0xA0] world_fresh) = world_fresh"
      by blast
    then show ?thesis using k by (simp add: prod_eq_iff)
  qed
  have k: "strip karen_padded \<noteq> []" using ne by (simp add: strip_karen_padded)
  have c: "(case cache_file world_fresh of Stored d \<Rightarrow> d | Absent \<Rightarrow> Map.empty
            | Unreadable \<Rightarrow> Map.empty) (strip karen_padded) = None"
    by (simp add: world_fresh_def)
  have rt: "\<forall>tr. retryable (nominatim env_down tr (strip karen_padded))"
    by (simp add: retryable_def env_down_def)
  have t: "trace (snd (geocode_address env_down karen_padded world_fresh))
       = [Http_nominatim karen, Sleep 0.5, Http_nominatim karen, Sleep 1,
          Http_nominatim karen, Sleep 2, Http_nominatim karen, Sleep 4]"
    using ne
    by (simp add: geocode_address_def strip_karen_padded load_cache_def world_fresh_def
          env_down_def http_nominatim_def sleep_def upt_rec Let_def write_cache_def)
  from geocode_address_cache_then_retry
         [where e = env_down and addr = karen_padded and w = world_fresh] k c rt
  have r: "fst (geocode_address env_down karen_padded world_fresh) = None"
    and f: "cache_file (snd (geocode_address env_down karen_padded world_fresh))
       = (case disk_write env_down (trace (snd (geocode_address env_down karen_padded world_fresh))) of
            Written \<Rightarrow> Stored ((case cache_file world_fresh of Stored d \<Rightarrow> d | Absent \<Rightarrow> Map.empty
                 | Unreadable \<Rightarrow> Map.empty)(strip karen_padded \<mapsto>
                 fst (geocode_address env_down karen_padded world_fresh)))
          | Open_failed \<Rightarrow> cache_file world_fresh
          | Dump_failed \<Rightarrow> Unreadable)"
    by blast+
  have "cache_file (snd (geocode_address env_down karen_padded world_fresh)) = Stored [karen \<mapsto> None]"
    unfolding f r by (simp add: env_down_def world_fresh_def strip_karen_padded)
  with r t hit1 hit2 empty strip_karen_padded show ?thesis by (intro conjI)
qed

subsection \<open>Router\<close>

lemma osrm_distance_and_shape_frame [simp]:
  "cache_file (snd (osrm_distance_and_shape e a b p w)) = cache_file w"
  by (simp add: osrm_distance_and_shape_def http_osrm_def split: osrm_reply.splits)

lemma MODES_no_profile:
  "map_of MODES k = Some m \<Longrightarrow> (osrm_profile m = None \<longleftrightarrow> k = ''cargo_tram'' \<or> k = ''boat'')"
  by (auto simp: MODES_def split: if_splits)


text \<open>
  Claim C4. For a mode of the dictionary passed in: when the mode has no OSRM profile
  (in \<^verbatim>\<open>MODES\<close> these are exactly \<^verbatim>\<open>cargo_tram\<close> and \<^verbatim>\<open>boat\<close>), or the engine
  is not \<^verbatim>\<open>OSRM (open data)\<close>, or the OSRM query gives \<^verbatim>\<open>None\<close>,
  \<^verbatim>\<open>route_with_engine\<close> returns the great-circle distance of the two points, by
  the haversine formula on a sphere of radius 6371.0088 km with the degrees turned
  into radians, and the two-point path from the first to the second.
\<close>

theorem route_with_engine_fallback:
  fixes a b :: point
  defines "great_circle \<equiv>
     2 * 6371.0088 *
       arcsin (sqrt ((sin ((fst b * pi / 180 - fst a * pi / 180) / 2))\<^sup>2
                     + cos (fst a * pi / 180) * cos (fst b * pi / 180)
                       * (sin ((snd b * pi / 180 - snd a * pi / 180) / 2))\<^sup>2))"
  assumes "map_of modes_dict mode_key = Some m"
  shows "(osrm_profile m = None \<longrightarrow>
            route_with_engine e a b mode_key modes_dict engine w
              = Inr ((great_circle, [a, b]), w))
       \<and> (engine \<noteq> ''OSRM (open data)'' \<longrightarrow>
            route_with_engine e a b mode_key modes_dict engine w
              = Inr ((great_circle, [a, b]), w))
       \<and> (\<forall>p. osrm_profile m = Some p \<and> fst (osrm_distance_and_shape e a b p w) = None \<longrightarrow>
            (\<exists>w'. route_with_engine e a b mode_key modes_dict engine w
                     = Inr ((great_circle, [a, b]), w')
                   \<and> cache_file w' = cache_file w))
       \<and> (modes_dict = MODES \<longrightarrow>
            (osrm_profile m = None \<longleftrightarrow> mode_key = ''cargo_tram'' \<or> mode_key = ''boat''))"
proof -
  have gc: "haversine_km a b = great_circle"
    by (simp add: haversine_km_def radians_def great_circle_def Let_def)
  have 1: "route_with_engine e a b mode_key modes_dict engine w
              = Inr ((great_circle, [a, b]), w)" if "osrm_profile m = None"
    using assms(2) that by (simp add: route_with_engine_def gc)
  have 2: "route_with_engine e a b mode_key modes_dict engine w
              = Inr ((great_circle, [a, b]), w)" if "engine \<noteq> ''OSRM (open data)''"
    using assms(2) that by (simp add: route_with_engine_def gc split: option.splits)
  have 3: "\<exists>w'. route_with_engine e a b mode_key modes_dict engine w
                     = Inr ((great_circle, [a, b]), w')
                   \<and> cache_file w' = cache_file w"
    if "osrm_profile m = Some p" "fst (osrm_distance_and_shape e a b p w) = None" for p
  proof -
    obtain r w1 where o: "osrm_distance_and_shape e a b p w = (r, w1)"
      by (cases "osrm_distance_and_shape e a b p w")
    with that(2) have r: "r = None" by simp
    have "cache_file w1 = cache_file w"
      using osrm_distance_and_shape_frame[of e a b p w] o by simp
    then show ?thesis using assms(2) that(1) o r by (simp add: route_with_engine_def gc)
  qed
  have 4: "osrm_profile m = None \<longleftrightarrow> mode_key = ''cargo_tram'' \<or> mode_key = ''boat''"
    if "modes_dict = MODES"
    using assms(2) that MODES_no_profile by simp
  show ?thesis using 1 2 3 4 by blast
qed

lemma MODES_boat: "map_of MODES ''boat'' = Some \<lparr>label = ''Urban River Barge / Boat'',
    emission_kg_per_km = 0.033, cost_trans = 31.718, cost_labour = 0.559583, speed_kph = 12.0,
    osrm_profile = None\<rparr>"
  by (simp add: MODES_def)

lemma MODES_truck: "map_of MODES ''truck'' = Some \<lparr>label = ''Truck (HGV)'',
    emission_kg_per_km = 0.448, cost_trans = 0.508, cost_labour = 0.289190, speed_kph = 23.45,
    osrm_profile = Some ''driving''\<rparr>"
  by (simp add: MODES_def)

lemma half_circumference:
  "2 * 6371.0088 *
       arcsin (sqrt ((sin ((fst (0, 180 :: real) * pi / 180 - fst (0 :: real, 0 :: real) * pi / 180) / 2))\<^sup>2
                     + cos (fst (0 :: real, 0 :: real) * pi / 180) * cos (fst (0 :: real, 180 :: real) * pi / 180)
                       * (sin ((snd (0 :: real, 180 :: real) * pi / 180 - snd (0 :: real, 0 :: real) * pi / 180) / 2))\<^sup>2))
   = 6371.0088 * pi"
  by simp

theorem route_with_engine_fallback_witness:
  "route_with_engine env_down (0, 0) (0, 180) ''boat'' MODES ''OSRM (open data)'' world_fresh
     = Inr ((6371.0088 * pi, [(0, 0), (0, 180)]), world_fresh)
   \<and> route_with_engine env_down (0, 0) (0, 180) ''truck'' MODES ''Haversine only'' world_fresh
     = Inr ((6371.0088 * pi, [(0, 0), (0, 180)]), world_fresh)
   \<and> route_with_engine env_down (0, 0) (0, 180) ''truck'' MODES ''OSRM (open data)'' world_fresh
     = Inr ((6371.0088 * pi, [(0, 0), (0, 180)]),
            world_fresh\<lparr>trace := [Http_osrm ''driving'' (0, 0) (0, 180)]\<rparr>)"
proof -
  have n: "fst (osrm_distance_and_shape env_down (0, 0) (0, 180) ''driving'' world_fresh) = None"
    by (simp add: osrm_distance_and_shape_def http_osrm_def env_down_def)
  have p: "osrm_profile \<lparr>label = ''Urban River Barge / Boat'',
    emission_kg_per_km = 0.033, cost_trans = 31.718, cost_labour = 0.559583, speed_kph = 12.0,
    osrm_profile = None\<rparr> = None" by simp
  have q: "osrm_profile \<lparr>label = ''Truck (HGV)'',
    emission_kg_per_km = 0.448, cost_trans = 0.508, cost_labour = 0.289190, speed_kph = 23.45,
    osrm_profile = Some ''driving''\<rparr> = Some ''driving''" by simp
  note b = route_with_engine_fallback [OF MODES_boat, of env_down "(0, 0)" "(0, 180)"
             "''OSRM (open data)''" world_fresh, unfolded half_circumference]
  note t1 = route_with_engine_fallback [OF MODES_truck, of env_down "(0, 0)" "(0, 180)"
             "''Haversine only''" world_fresh, unfolded half_circumference]
  note t2 = route_with_engine_fallback [OF MODES_truck, of env_down "(0, 0)" "(0, 180)"
             "''OSRM (open data)''" world_fresh, unfolded half_circumference]
  have 1: "route_with_engine env_down (0, 0) (0, 180) ''boat'' MODES ''OSRM (open data)'' world_fresh
     = Inr ((6371.0088 * pi, [(0, 0), (0, 180)]), world_fresh)"
    using b p by blast
  have 2: "route_with_engine env_down (0, 0) (0, 180) ''truck'' MODES ''Haversine only'' world_fresh
     = Inr ((6371.0088 * pi, [(0, 0), (0, 180)]), world_fresh)"
    using t1 by simp
  have "\<exists>w'. route_with_engine env_down (0, 0) (0, 180) ''truck'' MODES ''OSRM (open data)'' world_fresh
     = Inr ((6371.0088 * pi, [(0, 0), (0, 180)]), w')"
    using t2 q n by blast
  then have 3: "route_with_engine env_down (0, 0) (0, 180) ''truck'' MODES ''OSRM (open data)'' world_fresh
     = Inr ((6371.0088 * pi, [(0, 0), (0, 180)]),
            world_fresh\<lparr>trace := [Http_osrm ''driving'' (0, 0) (0, 180)]\<rparr>)"
    by (auto simp: route_with_engine_def MODES_truck osrm_distance_and_shape_def http_osrm_def
          env_down_def world_fresh_def)
  show ?thesis using 1 2 3 by (intro conjI)
qed

subsection \<open>Candidate evaluation and the search loops\<close>

lemma keeps_file_simps [simp]:
  "keeps_file w (Inl err)" "keeps_file w (Inr (x, w')) = (cache_file w' = cache_file w)"
  by (simp_all add: keeps_file_def)

lemma keeps_file_cong: "cache_file w1 = cache_file w \<Longrightarrow> keeps_file w1 res \<Longrightarrow> keeps_file w res"
  by (auto simp: keeps_file_def split: sum.splits)


lemma osrm_frame_eq:
  "osrm_distance_and_shape e a b p w = (r, w1) \<Longrightarrow> cache_file w1 = cache_file w"
  using osrm_distance_and_shape_frame[of e a b p w] by simp

lemma route_frame: "keeps_file w (route_with_engine e a b k md engine w)"
  by (auto simp: route_with_engine_def split: option.splits prod.splits dest: osrm_frame_eq)


lemma eval_via_frame: "keeps_file w (eval_candidate_via_hub e origin hb dest m1 m2 engine w)"
proof (cases "route_with_engine e origin (lat hb, lon hb) m1 MODES engine w")
  case (Inl err)
  then show ?thesis by (simp add: eval_candidate_via_hub_def)
next
  case (Inr x)
  then obtain d1 g1 w1 where r1: "route_with_engine e origin (lat hb, lon hb) m1 MODES engine w = Inr ((d1, g1), w1)"
    by (cases x) auto
  have f1: "cache_file w1 = cache_file w" using route_frame[of w e origin "(lat hb, lon hb)" m1 MODES engine] r1 by simp
  have f2: "keeps_file w1 (route_with_engine e (lat hb, lon hb) dest m2 MODES engine w1)" by (rule route_frame)
  show ?thesis using r1 f1 f2
    by (auto simp: eval_candidate_via_hub_def keeps_file_def split: sum.splits prod.splits)
qed


lemma eval_direct_frame: "keeps_file w (eval_candidate_direct e origin dest m engine w)"
  using route_frame[of w e origin dest m MODES engine]
  by (auto simp: eval_candidate_direct_def keeps_file_def split: sum.splits prod.splits)


lemma search_m2_frame: "keeps_file w (search_m2 e origin dest engine hb m1 ms results w)"
proof (induction ms arbitrary: results w)
  case Nil
  show ?case by simp
next
  case (Cons m2 ms)
  show ?case
  proof (cases "eval_candidate_via_hub e origin hb dest m1 m2 engine w")
    case (Inl err)
    then show ?thesis by simp
  next
    case (Inr x)
    then obtain segs tot w1 where ev: "eval_candidate_via_hub e origin hb dest m1 m2 engine w = Inr ((segs, tot), w1)"
      by (cases x) auto
    have "cache_file w1 = cache_file w" using eval_via_frame[of w e origin hb dest m1 m2 engine] ev by simp
    then show ?thesis using ev Cons.IH by (auto intro: keeps_file_cong)
  qed
qed



lemma search_m1_frame: "keeps_file w (search_m1 e origin dest engine al hb ms results w)"
proof (induction ms arbitrary: results w)
  case Nil
  show ?case by simp
next
  case (Cons m1 ms)
  show ?case
  proof (cases "search_m2 e origin dest engine hb m1 al results w")
    case (Inl err)
    then show ?thesis by simp
  next
    case (Inr x)
    then obtain rs1 w1 where ev: "search_m2 e origin dest engine hb m1 al results w = Inr (rs1, w1)"
      by (cases x) auto
    have "cache_file w1 = cache_file w"
      using search_m2_frame[of w e origin dest engine hb m1 al results] ev by simp
    then show ?thesis using ev Cons.IH by (auto intro: keeps_file_cong)
  qed
qed


lemma search_hubs_frame: "keeps_file w (search_hubs e origin dest engine al hbs results w)"
proof (induction hbs arbitrary: results w)
  case Nil
  show ?case by simp
next
  case (Cons hb hbs)
  show ?case
  proof (cases "search_m1 e origin dest engine al hb al results w")
    case (Inl err)
    then show ?thesis by simp
  next
    case (Inr x)
    then obtain rs1 w1 where ev: "search_m1 e origin dest engine al hb al results w = Inr (rs1, w1)"
      by (cases x) auto
    have "cache_file w1 = cache_file w"
      using search_m1_frame[of w e origin dest engine al hb al results] ev by simp
    then show ?thesis using ev Cons.IH by (auto intro: keeps_file_cong)
  qed
qed


lemma search_direct_frame: "keeps_file w (search_direct e origin dest engine ms results w)"
proof (induction ms arbitrary: results w)
  case Nil
  show ?case by simp
next
  case (Cons m ms)
  show ?case
  proof (cases "eval_candidate_direct e origin dest m engine w")
    case (Inl err)
    then show ?thesis by simp
  next
    case (Inr x)
    then obtain segs tot w1 where ev: "eval_candidate_direct e origin dest m engine w = Inr ((segs, tot), w1)"
      by (cases x) auto
    have "cache_file w1 = cache_file w" using eval_direct_frame[of w e origin dest m engine] ev by simp
    then show ?thesis using ev Cons.IH by (auto intro: keeps_file_cong)
  qed
qed




subsection \<open>Selection and scoring\<close>

lemma min_from_mem: "min_from f b xs \<in> set (b # xs)"
  by (induction xs arbitrary: b) (auto split: if_splits)

lemma min_from_le_best: "f (min_from f b xs) \<le> f b"
proof (induction xs arbitrary: b)
  case Nil
  show ?case by simp
next
  case (Cons x xs)
  show ?case using Cons.IH[of "if f x < f b then x else b"] by (auto split: if_splits)
qed

lemma min_from_le: "x \<in> set (b # xs) \<Longrightarrow> f (min_from f b xs) \<le> f x"
proof (induction xs arbitrary: b)
  case Nil
  then show ?case by simp
next
  case (Cons y ys)
  let ?b = "if f y < f b then y else b"
  have le: "f (min_from f ?b ys) \<le> f ?b" by (rule min_from_le_best)
  show ?case
  proof (cases "x \<in> set ys")
    case True
    then show ?thesis using Cons.IH[of ?b] by simp
  next
    case False
    with Cons.prems have "x = b \<or> x = y" by auto
    then show ?thesis using le by (auto split: if_splits)
  qed
qed

lemma max_from_mem: "max_from f b xs \<in> set (b # xs)"
  by (induction xs arbitrary: b) (auto split: if_splits)

lemma max_from_ge_best: "f b \<le> f (max_from f b xs)"
proof (induction xs arbitrary: b)
  case Nil
  show ?case by simp
next
  case (Cons x xs)
  show ?case using Cons.IH[of "if f b < f x then x else b"] by (auto split: if_splits)
qed

lemma max_from_ge: "x \<in> set (b # xs) \<Longrightarrow> f x \<le> f (max_from f b xs)"
proof (induction xs arbitrary: b)
  case Nil
  then show ?case by simp
next
  case (Cons y ys)
  let ?b = "if f b < f y then y else b"
  have ge: "f ?b \<le> f (max_from f ?b ys)" by (rule max_from_ge_best)
  show ?case
  proof (cases "x \<in> set ys")
    case True
    then show ?thesis using Cons.IH[of ?b] by simp
  next
    case False
    with Cons.prems have "x = b \<or> x = y" by auto
    then show ?thesis using ge by (auto split: if_splits)
  qed
qed

lemma min_from_id_Min: "min_from id v vs = Min (set (v # vs))"
proof (rule sym, rule Min_eqI)
  show "finite (set (v # vs))" by simp
  show "min_from id v vs \<le> y" if "y \<in> set (v # vs)" for y
    using min_from_le[OF that, of id] by simp
  show "min_from id v vs \<in> set (v # vs)" by (rule min_from_mem)
qed

lemma max_from_id_Max: "max_from id v vs = Max (set (v # vs))"
proof (rule sym, rule Max_eqI)
  show "finite (set (v # vs))" by simp
  show "y \<le> max_from id v vs" if "y \<in> set (v # vs)" for y
    using max_from_ge[OF that, of id] by simp
  show "max_from id v vs \<in> set (v # vs)" by (rule max_from_mem)
qed

lemma select_and_score_Cons:
  "select_and_score (r0 # rest) =
     \<lparr>all_results = map (scored_spec (r0 # rest)) (r0 # rest),
      min_co2 = Some (scored_spec (r0 # rest) (min_from co2_of r0 rest)),
      min_cost = Some (scored_spec (r0 # rest) (min_from cost_of r0 rest)),
      best_combo = None\<rparr>"
proof -
  have a: "set (co2_kg (totals r0) # map (\<lambda>r. co2_kg (totals r)) rest) = co2_of ` set (r0 # rest)"
    by (auto simp: co2_of_def)
  have b: "set (cost (totals r0) # map (\<lambda>r. cost (totals r)) rest) = cost_of ` set (r0 # rest)"
    by (auto simp: cost_of_def)
  have n: "norm_score x (Min V) (Max V) = spec_norm V x" for x V
    by (simp add: norm_score_def spec_norm_def)
  show ?thesis
    unfolding select_and_score_def list.case Let_def min_from_id_Min max_from_id_Max a b n
    by (simp add: scored_spec_def co2_of_def[abs_def] cost_of_def[abs_def])
qed

lemma scored_spec_simps [simp]:
  "totals (scored_spec rs r) = totals r" "co2_of (scored_spec rs r) = co2_of r"
  "cost_of (scored_spec rs r) = cost_of r"
  "hub (scored_spec rs r) = hub r" "modes (scored_spec rs r) = modes r"
  "segments (scored_spec rs r) = segments r"
  "score_norm_co2 (scored_spec rs r) = Some (spec_norm (co2_of ` set rs) (co2_of r))"
  "score_norm_cost (scored_spec rs r) = Some (spec_norm (cost_of ` set rs) (cost_of r))"
  by (simp_all add: scored_spec_def co2_of_def cost_of_def)

lemma spec_norm_bounds:
  assumes "finite V" "x \<in> V"
  shows "0 \<le> spec_norm V x \<and> spec_norm V x \<le> 1"
proof -
  have lo: "Min V \<le> x" and hi: "x \<le> Max V" using assms by simp_all
  show ?thesis
  proof (cases "Max V = Min V")
    case True
    then show ?thesis by (simp add: spec_norm_def)
  next
    case False
    with lo hi have "Min V < Max V" by linarith
    then show ?thesis using lo hi by (simp add: spec_norm_def)
  qed
qed

lemma spec_norm_Min: "spec_norm V (Min V) = 0"
  by (simp add: spec_norm_def)

lemma spec_norm_Max: "Max V \<noteq> Min V \<Longrightarrow> spec_norm V (Max V) = 1"
  by (simp add: spec_norm_def)

lemma search_result_shape:
  "search_best_routes e cn cobj origin dest engine via fixed w = Inr (sr, w')
     \<Longrightarrow> \<exists>rs. sr = select_and_score rs"
  by (auto simp: search_best_routes_def split: option.splits sum.splits if_splits)



subsection \<open>A worked search\<close>

lemma caps_nairobi:
  "map_of CITY_MODE_CAPS ''Nairobi, Kenya'' =
     Some \<lparr>allowed = [''cargo_bus'', ''small_van'', ''truck''],
           caps_notes = ''no boats/tram/robots; bikes feasible''\<rparr>"
  by (simp add: CITY_MODE_CAPS_def sao_paulo_def)

lemma MODES_cargo_bus: "map_of MODES ''cargo_bus'' = Some \<lparr>label = ''Cargo Bus / Night Bus'',
    emission_kg_per_km = 0.822, cost_trans = 0.366, cost_labour = 0.289190, speed_kph = 23.45,
    osrm_profile = Some ''driving''\<rparr>"
  by (simp add: MODES_def)

lemma MODES_small_van: "map_of MODES ''small_van'' = Some \<lparr>label = ''Small Van (ICE)'',
    emission_kg_per_km = 0.210, cost_trans = 0.179, cost_labour = 0.289190, speed_kph = 23.45,
    osrm_profile = Some ''driving''\<rparr>"
  by (simp add: MODES_def)

lemma osrm_5km:
  "osrm_distance_and_shape env_osrm_5km a b p w =
     (Some (5, [a, b]), w\<lparr>trace := trace w @ [Http_osrm p a b]\<rparr>)"
  by (simp add: osrm_distance_and_shape_def http_osrm_def env_osrm_5km_def)

lemma py_round_5: "py_round 5 3 = 5"
  by (simp add: py_round_def)

lemma search_direct_example:
  "search_direct env_osrm_5km (0, 0) (0, 1) ''OSRM (open data)''
     [''cargo_bus'', ''small_van'', ''truck''] [] world_fresh =
   Inr ([direct_5km ''cargo_bus'' (100 / 469) 4.11 3.27595 None None,
         direct_5km ''small_van'' (100 / 469) 1.05 2.34095 None None,
         direct_5km ''truck'' (100 / 469) 2.24 3.98595 None None],
        world_fresh\<lparr>trace := [Http_osrm ''driving'' (0, 0) (0, 1), Http_osrm ''driving'' (0, 0) (0, 1),
                               Http_osrm ''driving'' (0, 0) (0, 1)]\<rparr>)"
  by (simp add: eval_candidate_direct_def route_with_engine_def MODES_cargo_bus MODES_small_van
        MODES_truck osrm_5km impact_for_leg_def py_round_5 direct_5km_def world_fresh_def)

lemma direct_5km_simps [simp]:
  "co2_of (direct_5km m t em c s1 s2) = em" "cost_of (direct_5km m t em c s1 s2) = c"
  "modes (direct_5km m t em c s1 s2) = [m]"
  "score_norm_co2 (direct_5km m t em c s1 s2) = s1"
  "score_norm_cost (direct_5km m t em c s1 s2) = s2"
  "scored_spec rs (direct_5km m t em c s1 s2) =
     direct_5km m t em c (Some (spec_norm (co2_of ` set rs) em)) (Some (spec_norm (cost_of ` set rs) c))"
  by (simp_all add: direct_5km_def co2_of_def cost_of_def scored_spec_def)

lemma search_example:
  "search_best_routes env_osrm_5km ''Nairobi, Kenya'' nairobi (0, 0) (0, 1)
     ''OSRM (open data)'' False None world_fresh =
   Inr (\<lparr>all_results =
           [direct_5km ''cargo_bus'' (100 / 469) 4.11 3.27595 (Some 1) (Some (187 / 329)),
            direct_5km ''small_van'' (100 / 469) 1.05 2.34095 (Some 0) (Some 0),
            direct_5km ''truck'' (100 / 469) 2.24 3.98595 (Some (7 / 18)) (Some 1)],
         min_co2 = Some (direct_5km ''small_van'' (100 / 469) 1.05 2.34095 (Some 0) (Some 0)),
         min_cost = Some (direct_5km ''small_van'' (100 / 469) 1.05 2.34095 (Some 0) (Some 0)),
         best_combo = None\<rparr>,
        world_fresh\<lparr>trace := [Http_osrm ''driving'' (0, 0) (0, 1), Http_osrm ''driving'' (0, 0) (0, 1),
                               Http_osrm ''driving'' (0, 0) (0, 1)]\<rparr>)"
  by (simp del: search_direct.simps
        add: search_best_routes_def caps_nairobi search_direct_example select_and_score_Cons
          spec_norm_def)

subsection \<open>The three best candidates\<close>

lemma all_results_select:
  "all_results (select_and_score rs) = map (scored_spec rs) rs"
  by (cases rs) (simp_all add: select_and_score_Cons, simp add: select_and_score_def)

lemma cand_key_scored [simp]: "cand_key (scored_spec rs r) = cand_key r"
  by (simp add: cand_key_def)

lemma those_keyed:
  "\<forall>r\<in>set xs. g r \<noteq> None \<Longrightarrow>
     those (map (\<lambda>r. map_option (\<lambda>v. (v, r)) (g r)) xs) = Some (map (\<lambda>r. (the (g r), r)) xs)"
  by (induction xs) auto

lemma combo_key_Some:
  "score_norm_cost r = Some k \<Longrightarrow> score_norm_co2 r = Some c
     \<Longrightarrow> combo_key wt r = Some (wt * k + (1 - wt) * c)"
  by (simp add: combo_key_def)

lemma pick_best_combo_empty: "all_results sr = [] \<Longrightarrow> pick_best_combo sr wt = Inr None"
  by (simp add: pick_best_combo_def)

lemma pick_best_combo_scored:
  assumes ne: "all_results sr \<noteq> []"
    and sc: "\<forall>r\<in>set (all_results sr). combo_key (max 0 (min 1 wt)) r \<noteq> None"
  shows "\<exists>b vb. pick_best_combo sr wt = Inr (Some b) \<and> b \<in> set (all_results sr)
           \<and> combo_key (max 0 (min 1 wt)) b = Some vb
           \<and> (\<forall>r\<in>set (all_results sr). \<exists>vr. combo_key (max 0 (min 1 wt)) r = Some vr \<and> vb \<le> vr)"
proof -
  let ?w = "max 0 (min 1 wt)"
  let ?g = "combo_key ?w"
  let ?pair = "\<lambda>r. (the (?g r), r)"
  obtain r0 rest where res: "all_results sr = r0 # rest" using ne by (cases "all_results sr") auto
  let ?p = "min_from fst (?pair r0) (map ?pair rest)"
  have th: "those (map (\<lambda>r. map_option (\<lambda>v. (v, r)) (?g r)) (all_results sr))
              = Some (map ?pair (all_results sr))"
    using those_keyed[OF sc] .
  have pick: "pick_best_combo sr wt = Inr (Some (snd ?p))"
    using th by (simp add: pick_best_combo_def res Let_def)
  have mem: "?p \<in> set (map ?pair (all_results sr))"
    using min_from_mem[of fst "?pair r0" "map ?pair rest"] by (simp add: res)
  then obtain b where b: "b \<in> set (all_results sr)" and pb: "?p = ?pair b" by auto
  have gb: "?g b = Some (the (?g b))" using sc b by auto
  have le: "the (?g b) \<le> the (?g r)" if "r \<in> set (all_results sr)" for r
  proof -
    have "?pair r \<in> set (?pair r0 # map ?pair rest)" using that by (auto simp: res)
    from min_from_le[OF this, of fst] show ?thesis by (simp add: pb)
  qed
  have "\<forall>r\<in>set (all_results sr). \<exists>vr. ?g r = Some vr \<and> the (?g b) \<le> vr"
  proof
    fix r assume r: "r \<in> set (all_results sr)"
    then obtain vr where vr: "?g r = Some vr" using sc by auto
    with le[OF r] show "\<exists>vr. ?g r = Some vr \<and> the (?g b) \<le> vr" by simp
  qed
  then show ?thesis using pick b gb pb by (intro exI[of _ b] exI[of _ "the (?g b)"]) simp
qed


lemma combo_key_SomeD:
  "combo_key wt r = Some v \<Longrightarrow>
     \<exists>k c. score_norm_cost r = Some k \<and> score_norm_co2 r = Some c \<and> v = wt * k + (1 - wt) * c"
  by (auto simp: combo_key_def split: option.splits)

text \<open>A search in New York, where the robot emits least and the cargo bike costs least.\<close>

lemma caps_new_york:
  "map_of CITY_MODE_CAPS ''New York City, USA'' =
     Some \<lparr>allowed = [''autonomous_robot'', ''cargo_bike'', ''cargo_bus'', ''small_van'', ''truck''],
           caps_notes = ''clean trucks, cargo bikes; boat feasible; no tram/robots''\<rparr>"
  by (simp add: CITY_MODE_CAPS_def sao_paulo_def)

lemma MODES_autonomous_robot: "map_of MODES ''autonomous_robot'' =
    Some \<lparr>label = ''Autonomous Delivery Robot'', emission_kg_per_km = 0.010, cost_trans = 0.005,
      cost_labour = 1.119167, speed_kph = 6.0, osrm_profile = Some ''walking''\<rparr>"
  by (simp add: MODES_def)

lemma MODES_cargo_bike: "map_of MODES ''cargo_bike'' =
    Some \<lparr>label = ''Cargo Bike'', emission_kg_per_km = 0.033, cost_trans = 0.004,
      cost_labour = 0.419688, speed_kph = 16.0, osrm_profile = Some ''cycling''\<rparr>"
  by (simp add: MODES_def)

lemma search_direct_new_york:
  "search_direct env_osrm_5km (0, 0) (0, 1) ''OSRM (open data)''
     [''autonomous_robot'', ''cargo_bike'', ''cargo_bus'', ''small_van'', ''truck''] [] world_fresh =
   Inr ([direct_5km ''autonomous_robot'' (5 / 6) 0.05 5.620835 None None,
         direct_5km ''cargo_bike'' (5 / 16) 0.165 2.11844 None None,
         direct_5km ''cargo_bus'' (100 / 469) 4.11 3.27595 None None,
         direct_5km ''small_van'' (100 / 469) 1.05 2.34095 None None,
         direct_5km ''truck'' (100 / 469) 2.24 3.98595 None None],
        world_fresh\<lparr>trace := [Http_osrm ''walking'' (0, 0) (0, 1), Http_osrm ''cycling'' (0, 0) (0, 1),
                               Http_osrm ''driving'' (0, 0) (0, 1), Http_osrm ''driving'' (0, 0) (0, 1),
                               Http_osrm ''driving'' (0, 0) (0, 1)]\<rparr>)"
  by (simp add: eval_candidate_direct_def route_with_engine_def MODES_autonomous_robot
        MODES_cargo_bike MODES_cargo_bus MODES_small_van MODES_truck osrm_5km impact_for_leg_def
        py_round_5 direct_5km_def world_fresh_def)

lemma search_new_york:
  "search_best_routes env_osrm_5km ''New York City, USA'' new_york (0, 0) (0, 1)
     ''OSRM (open data)'' False None world_fresh =
   Inr (new_york_result,
        world_fresh\<lparr>trace := [Http_osrm ''walking'' (0, 0) (0, 1), Http_osrm ''cycling'' (0, 0) (0, 1),
                               Http_osrm ''driving'' (0, 0) (0, 1), Http_osrm ''driving'' (0, 0) (0, 1),
                               Http_osrm ''driving'' (0, 0) (0, 1)]\<rparr>)"
  by (simp del: search_direct.simps
        add: search_best_routes_def caps_new_york search_direct_new_york select_and_score_Cons
          spec_norm_def new_york_result_def)

lemma pick_new_york:
  "pick_best_combo new_york_result 0.5 =
     Inr (Some (direct_5km ''cargo_bike'' (5 / 16) 0.165 2.11844 (Some (23 / 812)) (Some 0)))"
  "pick_best_combo new_york_result 0.01 =
     Inr (Some (direct_5km ''autonomous_robot'' (5 / 6) 0.05 5.620835 (Some 0) (Some 1)))"
  "pick_best_combo new_york_result (-3) =
     Inr (Some (direct_5km ''autonomous_robot'' (5 / 6) 0.05 5.620835 (Some 0) (Some 1)))"
  "pick_best_combo new_york_result 7 =
     Inr (Some (direct_5km ''cargo_bike'' (5 / 16) 0.165 2.11844 (Some (23 / 812)) (Some 0)))"
  by (simp_all add: pick_best_combo_def combo_key_def new_york_result_def)


text \<open>
  Claim C1. For every result of \<^verbatim>\<open>search_best_routes\<close>: \<^verbatim>\<open>pick_best_combo\<close>
  returns \<^verbatim>\<open>None\<close> exactly when the candidate list is empty; the weight is
  clamped into [0, 1]; and when the list is not empty, \<^verbatim>\<open>min_co2\<close> is a member
  of it with the least total CO2, \<^verbatim>\<open>min_cost\<close> a member with the least total
  cost, and \<^verbatim>\<open>pick_best_combo\<close> returns a member \<open>b\<close> such that every member
  carries both normalised scores and
  \<open>wt * score_norm_cost b + (1 - wt) * score_norm_co2 b\<close> is at most
  \<open>wt * score_norm_cost r + (1 - wt) * score_norm_co2 r\<close> for every member \<open>r\<close>,
  \<open>wt\<close> being the clamped weight.
\<close>

theorem search_selects_three_best:
  fixes weight_cost :: real
  defines "wt \<equiv> max 0 (min 1 weight_cost)"
  assumes "search_best_routes e city_name cobj origin dest engine via_hub fixed_hub w = Inr (sr, w')"
  shows "(pick_best_combo sr weight_cost = Inr None \<longleftrightarrow> all_results sr = [])
       \<and> 0 \<le> wt \<and> wt \<le> 1
       \<and> (all_results sr \<noteq> [] \<longrightarrow>
            (\<exists>c. min_co2 sr = Some c \<and> c \<in> set (all_results sr)
                 \<and> (\<forall>r\<in>set (all_results sr). co2_of c \<le> co2_of r))
          \<and> (\<exists>c. min_cost sr = Some c \<and> c \<in> set (all_results sr)
                 \<and> (\<forall>r\<in>set (all_results sr). cost_of c \<le> cost_of r))
          \<and> (\<exists>b kb cb. pick_best_combo sr weight_cost = Inr (Some b) \<and> b \<in> set (all_results sr)
                 \<and> score_norm_cost b = Some kb \<and> score_norm_co2 b = Some cb
                 \<and> (\<forall>r\<in>set (all_results sr).
                       \<exists>kr cr. score_norm_cost r = Some kr \<and> score_norm_co2 r = Some cr
                         \<and> wt * kb + (1 - wt) * cb \<le> wt * kr + (1 - wt) * cr)))"
proof -
  obtain rs where sr: "sr = select_and_score rs" using search_result_shape[OF assms(2)] by blast
  have ar: "all_results sr = map (scored_spec rs) rs" by (simp add: sr all_results_select)
  have keys: "\<forall>r\<in>set (all_results sr). combo_key (max 0 (min 1 weight_cost)) r \<noteq> None"
    by (auto simp: ar combo_key_def)
  have A: "pick_best_combo sr weight_cost = Inr None \<longleftrightarrow> all_results sr = []"
  proof (cases "all_results sr = []")
    case True
    then show ?thesis by (simp add: pick_best_combo_empty)
  next
    case False
    from pick_best_combo_scored[OF False keys] show ?thesis using False by auto
  qed
  have W: "0 \<le> wt \<and> wt \<le> 1" by (simp add: wt_def)
  have B: "(\<exists>c. min_co2 sr = Some c \<and> c \<in> set (all_results sr)
                 \<and> (\<forall>r\<in>set (all_results sr). co2_of c \<le> co2_of r))
          \<and> (\<exists>c. min_cost sr = Some c \<and> c \<in> set (all_results sr)
                 \<and> (\<forall>r\<in>set (all_results sr). cost_of c \<le> cost_of r))" if ne: "all_results sr \<noteq> []"
  proof -
    obtain r0 rest where rs: "rs = r0 # rest" using ne ar by (cases rs) auto
    have m1: "min_co2 sr = Some (scored_spec rs (min_from co2_of r0 rest))"
      and m2: "min_cost sr = Some (scored_spec rs (min_from cost_of r0 rest))"
      unfolding sr rs by (simp_all add: select_and_score_Cons)
    have i1: "min_from co2_of r0 rest \<in> set rs" and i2: "min_from cost_of r0 rest \<in> set rs"
      unfolding rs by (rule min_from_mem)+
    have l1: "\<forall>r\<in>set (all_results sr). co2_of (scored_spec rs (min_from co2_of r0 rest)) \<le> co2_of r"
      using min_from_le[of _ r0 rest co2_of] by (auto simp: ar rs)
    have l2: "\<forall>r\<in>set (all_results sr). cost_of (scored_spec rs (min_from cost_of r0 rest)) \<le> cost_of r"
      using min_from_le[of _ r0 rest cost_of] by (auto simp: ar rs)
    show ?thesis using m1 m2 i1 i2 l1 l2 by (simp add: ar)
  qed
  have C: "\<exists>b kb cb. pick_best_combo sr weight_cost = Inr (Some b) \<and> b \<in> set (all_results sr)
                 \<and> score_norm_cost b = Some kb \<and> score_norm_co2 b = Some cb
                 \<and> (\<forall>r\<in>set (all_results sr).
                       \<exists>kr cr. score_norm_cost r = Some kr \<and> score_norm_co2 r = Some cr
                         \<and> wt * kb + (1 - wt) * cb \<le> wt * kr + (1 - wt) * cr)"
    if ne: "all_results sr \<noteq> []"
  proof -
    obtain b vb where p: "pick_best_combo sr weight_cost = Inr (Some b)"
      and bm: "b \<in> set (all_results sr)"
      and kb: "combo_key wt b = Some vb"
      and mn: "\<forall>r\<in>set (all_results sr). \<exists>vr. combo_key wt r = Some vr \<and> vb \<le> vr"
      using pick_best_combo_scored[OF ne keys] unfolding wt_def by blast
    obtain k c where b1: "score_norm_cost b = Some k" and b2: "score_norm_co2 b = Some c"
      and vb: "vb = wt * k + (1 - wt) * c"
      using combo_key_SomeD[OF kb] by blast
    have "\<exists>kr cr. score_norm_cost r = Some kr \<and> score_norm_co2 r = Some cr
                \<and> wt * k + (1 - wt) * c \<le> wt * kr + (1 - wt) * cr"
      if r: "r \<in> set (all_results sr)" for r
    proof -
      obtain vr where v: "combo_key wt r = Some vr" and le: "vb \<le> vr" using mn r by blast
      obtain kr cr where "score_norm_cost r = Some kr" "score_norm_co2 r = Some cr"
        "vr = wt * kr + (1 - wt) * cr"
        using combo_key_SomeD[OF v] by blast
      then show ?thesis using le vb by auto
    qed
    then show ?thesis using p bm b1 b2 by blast
  qed
  show ?thesis using A W B C by blast
qed


theorem search_selects_three_best_witness:
  "search_best_routes env_osrm_5km ''New York City, USA'' new_york (0, 0) (0, 1)
     ''OSRM (open data)'' False None world_fresh =
   Inr (new_york_result,
        world_fresh\<lparr>trace := [Http_osrm ''walking'' (0, 0) (0, 1), Http_osrm ''cycling'' (0, 0) (0, 1),
                               Http_osrm ''driving'' (0, 0) (0, 1), Http_osrm ''driving'' (0, 0) (0, 1),
                               Http_osrm ''driving'' (0, 0) (0, 1)]\<rparr>)
   \<and> map modes (all_results new_york_result) =
       [[''autonomous_robot''], [''cargo_bike''], [''cargo_bus''], [''small_van''], [''truck'']]
   \<and> map_option modes (min_co2 new_york_result) = Some [''autonomous_robot'']
   \<and> map_option modes (min_cost new_york_result) = Some [''cargo_bike'']
   \<and> (\<exists>b. pick_best_combo new_york_result 0.5 = Inr (Some b) \<and> modes b = [''cargo_bike''])
   \<and> (\<exists>b. pick_best_combo new_york_result 0.01 = Inr (Some b) \<and> modes b = [''autonomous_robot''])
   \<and> (\<exists>b. pick_best_combo new_york_result (-3) = Inr (Some b) \<and> modes b = [''autonomous_robot''])
   \<and> (\<exists>b. pick_best_combo new_york_result 7 = Inr (Some b) \<and> modes b = [''cargo_bike''])
   \<and> (\<exists>b kb cb. pick_best_combo new_york_result 0.5 = Inr (Some b)
          \<and> b \<in> set (all_results new_york_result)
          \<and> score_norm_cost b = Some kb \<and> score_norm_co2 b = Some cb
          \<and> (\<forall>r\<in>set (all_results new_york_result).
                \<exists>kr cr. score_norm_cost r = Some kr \<and> score_norm_co2 r = Some cr
                  \<and> 0.5 * kb + (1 - 0.5) * cb \<le> 0.5 * kr + (1 - 0.5) * cr))"
proof -
  have ne: "all_results new_york_result \<noteq> []" by (simp add: new_york_result_def)
  have wt: "max 0 (min 1 (0.5 :: real)) = 0.5" by simp
  from search_selects_three_best [OF search_new_york, of "0.5"] ne
  have c: "\<exists>b kb cb. pick_best_combo new_york_result 0.5 = Inr (Some b)
          \<and> b \<in> set (all_results new_york_result)
          \<and> score_norm_cost b = Some kb \<and> score_norm_co2 b = Some cb
          \<and> (\<forall>r\<in>set (all_results new_york_result).
                \<exists>kr cr. score_norm_cost r = Some kr \<and> score_norm_co2 r = Some cr
                  \<and> 0.5 * kb + (1 - 0.5) * cb \<le> 0.5 * kr + (1 - 0.5) * cr)"
    unfolding wt by blast
  have m: "map modes (all_results new_york_result) =
       [[''autonomous_robot''], [''cargo_bike''], [''cargo_bus''], [''small_van''], [''truck'']]"
    "map_option modes (min_co2 new_york_result) = Some [''autonomous_robot'']"
    "map_option modes (min_cost new_york_result) = Some [''cargo_bike'']"
    by (simp_all add: new_york_result_def)
  have p: "\<exists>b. pick_best_combo new_york_result 0.5 = Inr (Some b) \<and> modes b = [''cargo_bike'']"
    "\<exists>b. pick_best_combo new_york_result 0.01 = Inr (Some b) \<and> modes b = [''autonomous_robot'']"
    "\<exists>b. pick_best_combo new_york_result (-3) = Inr (Some b) \<and> modes b = [''autonomous_robot'']"
    "\<exists>b. pick_best_combo new_york_result 7 = Inr (Some b) \<and> modes b = [''cargo_bike'']"
    using pick_new_york by (simp_all add: direct_5km_simps)
  show ?thesis using search_new_york m p c by (intro conjI)
qed

subsection \<open>Normalised scores\<close>

lemma image_scored [simp]:
  "co2_of ` scored_spec rs ` X = co2_of ` X"
  "cost_of ` scored_spec rs ` X = cost_of ` X"
  by (simp_all add: image_image)


text \<open>
  Claim C3. After a search with a non-empty candidate list, with \<open>C\<close> the CO2 totals
  and \<open>K\<close> the cost totals of all candidates: every candidate carries
  \<open>(co2 - Min C) / (Max C - Min C)\<close> and \<open>(cost - Min K) / (Max K - Min K)\<close>, each
  replaced by 0 when the maximum equals the minimum; both scores lie in [0, 1]; some
  candidate has CO2 score 0 and some has cost score 0; and on an axis whose values
  differ some candidate has score 1.
\<close>

theorem search_scores_min_max_normalised:
  assumes "search_best_routes e city_name cobj origin dest engine via_hub fixed_hub w = Inr (sr, w')"
    and "all_results sr \<noteq> []"
  defines "C \<equiv> co2_of ` set (all_results sr)"
    and "K \<equiv> cost_of ` set (all_results sr)"
  shows "(\<forall>r\<in>set (all_results sr).
            score_norm_co2 r =
              Some (if Max C = Min C then 0 else (co2_of r - Min C) / (Max C - Min C))
          \<and> score_norm_cost r =
              Some (if Max K = Min K then 0 else (cost_of r - Min K) / (Max K - Min K))
          \<and> (\<exists>s. score_norm_co2 r = Some s \<and> 0 \<le> s \<and> s \<le> 1)
          \<and> (\<exists>s. score_norm_cost r = Some s \<and> 0 \<le> s \<and> s \<le> 1))
       \<and> (\<exists>r\<in>set (all_results sr). score_norm_co2 r = Some 0)
       \<and> (\<exists>r\<in>set (all_results sr). score_norm_cost r = Some 0)
       \<and> (Max C \<noteq> Min C \<longrightarrow> (\<exists>r\<in>set (all_results sr). score_norm_co2 r = Some 1))
       \<and> (Max K \<noteq> Min K \<longrightarrow> (\<exists>r\<in>set (all_results sr). score_norm_cost r = Some 1))"
proof -
  obtain rs where sr: "sr = select_and_score rs" using search_result_shape[OF assms(1)] by blast
  have ar: "all_results sr = map (scored_spec rs) rs" by (simp add: sr all_results_select)
  have ne: "rs \<noteq> []" using assms(2) ar by auto
  have C: "C = co2_of ` set rs" and K: "K = cost_of ` set rs" by (simp_all add: C_def K_def ar)
  have fin: "finite C" "finite K" and nem: "C \<noteq> {}" "K \<noteq> {}" using ne by (simp_all add: C K)
  have s1: "score_norm_co2 r = Some (spec_norm C (co2_of r))"
    and s2: "score_norm_cost r = Some (spec_norm K (cost_of r))"
    and i1: "co2_of r \<in> C" and i2: "cost_of r \<in> K"
    if "r \<in> set (all_results sr)" for r
    using that by (auto simp: ar C K)
  have each: "\<forall>r\<in>set (all_results sr).
            score_norm_co2 r =
              Some (if Max C = Min C then 0 else (co2_of r - Min C) / (Max C - Min C))
          \<and> score_norm_cost r =
              Some (if Max K = Min K then 0 else (cost_of r - Min K) / (Max K - Min K))
          \<and> (\<exists>s. score_norm_co2 r = Some s \<and> 0 \<le> s \<and> s \<le> 1)
          \<and> (\<exists>s. score_norm_cost r = Some s \<and> 0 \<le> s \<and> s \<le> 1)"
  proof
    fix r assume r: "r \<in> set (all_results sr)"
    have b1: "0 \<le> spec_norm C (co2_of r) \<and> spec_norm C (co2_of r) \<le> 1"
      using spec_norm_bounds[OF fin(1) i1[OF r]] .
    have b2: "0 \<le> spec_norm K (cost_of r) \<and> spec_norm K (cost_of r) \<le> 1"
      using spec_norm_bounds[OF fin(2) i2[OF r]] .
    show "score_norm_co2 r =
              Some (if Max C = Min C then 0 else (co2_of r - Min C) / (Max C - Min C))
          \<and> score_norm_cost r =
              Some (if Max K = Min K then 0 else (cost_of r - Min K) / (Max K - Min K))
          \<and> (\<exists>s. score_norm_co2 r = Some s \<and> 0 \<le> s \<and> s \<le> 1)
          \<and> (\<exists>s. score_norm_cost r = Some s \<and> 0 \<le> s \<and> s \<le> 1)"
      using s1[OF r] s2[OF r] b1 b2 by (simp add: spec_norm_def)
  qed
  have pick: "\<exists>r\<in>set (all_results sr). co2_of r = v" if "v \<in> C" for v
    using that unfolding C_def by auto
  have pickK: "\<exists>r\<in>set (all_results sr). cost_of r = v" if "v \<in> K" for v
    using that unfolding K_def by auto
  have z1: "\<exists>r\<in>set (all_results sr). score_norm_co2 r = Some 0"
  proof -
    obtain r where r: "r \<in> set (all_results sr)" "co2_of r = Min C"
      using pick[OF Min_in[OF fin(1) nem(1)]] by blast
    then have "score_norm_co2 r = Some 0" using s1[OF r(1)] by (simp add: spec_norm_Min)
    with r(1) show ?thesis by blast
  qed
  have z2: "\<exists>r\<in>set (all_results sr). score_norm_cost r = Some 0"
  proof -
    obtain r where r: "r \<in> set (all_results sr)" "cost_of r = Min K"
      using pickK[OF Min_in[OF fin(2) nem(2)]] by blast
    then have "score_norm_cost r = Some 0" using s2[OF r(1)] by (simp add: spec_norm_Min)
    with r(1) show ?thesis by blast
  qed
  have o1: "\<exists>r\<in>set (all_results sr). score_norm_co2 r = Some 1" if "Max C \<noteq> Min C"
  proof -
    obtain r where r: "r \<in> set (all_results sr)" "co2_of r = Max C"
      using pick[OF Max_in[OF fin(1) nem(1)]] by blast
    then have "score_norm_co2 r = Some 1" using s1[OF r(1)] spec_norm_Max[OF that] by simp
    with r(1) show ?thesis by blast
  qed
  have o2: "\<exists>r\<in>set (all_results sr). score_norm_cost r = Some 1" if "Max K \<noteq> Min K"
  proof -
    obtain r where r: "r \<in> set (all_results sr)" "cost_of r = Max K"
      using pickK[OF Max_in[OF fin(2) nem(2)]] by blast
    then have "score_norm_cost r = Some 1" using s2[OF r(1)] spec_norm_Max[OF that] by simp
    with r(1) show ?thesis by blast
  qed
  show ?thesis using each z1 z2 o1 o2 by blast
qed

theorem search_scores_min_max_normalised_witness:
  "(\<exists>sr w'. search_best_routes env_osrm_5km ''Nairobi, Kenya'' nairobi (0, 0) (0, 1)
               ''OSRM (open data)'' False None world_fresh = Inr (sr, w')
      \<and> map co2_of (all_results sr) = [4.11, 1.05, 2.24]
      \<and> map cost_of (all_results sr) = [3.27595, 2.34095, 3.98595]
      \<and> map score_norm_co2 (all_results sr) = [Some 1, Some 0, Some (7 / 18)]
      \<and> map score_norm_cost (all_results sr) = [Some (187 / 329), Some 0, Some 1]
      \<and> (\<exists>r\<in>set (all_results sr). score_norm_co2 r = Some 0)
      \<and> (\<exists>r\<in>set (all_results sr). score_norm_cost r = Some 1))"
proof -
  let ?sr = "\<lparr>all_results =
           [direct_5km ''cargo_bus'' (100 / 469) 4.11 3.27595 (Some 1) (Some (187 / 329)),
            direct_5km ''small_van'' (100 / 469) 1.05 2.34095 (Some 0) (Some 0),
            direct_5km ''truck'' (100 / 469) 2.24 3.98595 (Some (7 / 18)) (Some 1)],
         min_co2 = Some (direct_5km ''small_van'' (100 / 469) 1.05 2.34095 (Some 0) (Some 0)),
         min_cost = Some (direct_5km ''small_van'' (100 / 469) 1.05 2.34095 (Some 0) (Some 0)),
         best_combo = None\<rparr>"
  have ne: "all_results ?sr \<noteq> []" by simp
  have mm: "Max (cost_of ` set (all_results ?sr)) \<noteq> Min (cost_of ` set (all_results ?sr))"
    by simp
  from search_scores_min_max_normalised [OF search_example ne] mm
  have z: "\<exists>r\<in>set (all_results ?sr). score_norm_co2 r = Some 0"
    and o: "\<exists>r\<in>set (all_results ?sr). score_norm_cost r = Some 1"
    by blast+
  show ?thesis
    by (rule exI[of _ ?sr], rule exI, intro conjI, rule search_example)
       (use z o in simp_all)
qed

subsection \<open>Enumeration of the candidates\<close>






subsection \<open>ESG metrics\<close>

lemma aggregate_loop_distinct:
  "distinct (map fst agg) \<Longrightarrow> distinct (map fst (aggregate_loop segs agg))"
  by (induction segs arbitrary: agg) (simp_all add: distinct_update)

lemma aggregate_loop_map_of:
  "map_of (aggregate_loop segs agg) m =
     (if m \<in> mode ` set segs \<or> map_of agg m \<noteq> None
      then Some ((case map_of agg m of None \<Rightarrow> 0 | Some v \<Rightarrow> v) + mode_km segs m)
      else None)"
proof (induction segs arbitrary: agg)
  case Nil
  show ?case by (auto simp: mode_km_def)
next
  case (Cons s ss)
  show ?case
    unfolding aggregate_loop.simps Cons.IH
    by (auto simp: update_conv mode_km_def split: option.splits)
qed

lemma aggregate_mode_km_map_of:
  "map_of (aggregate_mode_km segs) m = (if m \<in> mode ` set segs then Some (mode_km segs m) else None)"
  by (simp add: aggregate_mode_km_def aggregate_loop_map_of)

lemma aggregate_mode_km_keys: "set (map fst (aggregate_mode_km segs)) = mode ` set segs"
proof -
  have "dom (map_of (aggregate_mode_km segs)) = mode ` set segs"
    by (auto simp: aggregate_mode_km_map_of dom_def)
  then show ?thesis by (simp add: dom_map_of_conv_image_fst)
qed

lemma aggregate_mode_km_distinct: "distinct (map fst (aggregate_mode_km segs))"
  by (simp add: aggregate_mode_km_def aggregate_loop_distinct)

lemma esg_loop_sums:
  "fuel_l (esg_loop items acc) =
     fuel_l acc + (\<Sum>p\<leftarrow>items. fuel_l_per_km (esg_factors_of (fst p)) * snd p)"
  "kwh (esg_loop items acc) =
     kwh acc + (\<Sum>p\<leftarrow>items. electricity_kwh_per_km (esg_factors_of (fst p)) * snd p)"
  "road_space_eq_km (esg_loop items acc) =
     road_space_eq_km acc + (\<Sum>p\<leftarrow>items. road_space_eq (esg_factors_of (fst p)) * snd p)"
  "noise_index_km (esg_loop items acc) =
     noise_index_km acc + (\<Sum>p\<leftarrow>items. noise_idx (esg_factors_of (fst p)) * snd p)"
  "safety_risk_km (esg_loop items acc) =
     safety_risk_km acc + (\<Sum>p\<leftarrow>items. safety_risk (esg_factors_of (fst p)) * snd p)"
  by (induction items acc rule: esg_loop.induct) (simp_all add: esg_factors_of_def Let_def)

lemma sum_list_items:
  assumes "distinct (map fst items)"
  shows "(\<Sum>p\<leftarrow>items. g (fst p) * snd p) = (\<Sum>m\<in>set (map fst items). g m * the (map_of items m))"
  using assms
proof (induction items)
  case Nil
  show ?case by simp
next
  case (Cons p ps)
  obtain k v where p: "p = (k, v)" by (cases p)
  have k: "k \<notin> fst ` set ps" and d: "distinct (map fst ps)" using Cons.prems p by auto
  have "(\<Sum>m\<in>fst ` set ps. g m * the (map_of (p # ps) m))
          = (\<Sum>m\<in>fst ` set ps. g m * the (map_of ps m))"
    using k by (intro sum.cong) (auto simp: p)
  then show ?case using Cons.IH[OF d] k by (simp add: p)
qed

lemma metric_over_modes:
  "(\<Sum>p\<leftarrow>aggregate_mode_km segs. g (fst p) * snd p) = (\<Sum>m\<in>mode ` set segs. g m * mode_km segs m)"
proof -
  have "(\<Sum>p\<leftarrow>aggregate_mode_km segs. g (fst p) * snd p)
          = (\<Sum>m\<in>set (map fst (aggregate_mode_km segs)). g m * the (map_of (aggregate_mode_km segs) m))"
    by (rule sum_list_items) (rule aggregate_mode_km_distinct)
  also have "\<dots> = (\<Sum>m\<in>mode ` set segs. g m * the (map_of (aggregate_mode_km segs) m))"
    by (simp only: aggregate_mode_km_keys)
  also have "\<dots> = (\<Sum>m\<in>mode ` set segs. g m * mode_km segs m)"
    by (intro sum.cong) (simp_all add: aggregate_mode_km_map_of)
  finally show ?thesis .
qed


text \<open>
  Claim C7. For every list of segments, each of the five metrics is the sum, over the
  modes that occur, of the mode's factor times the total distance travelled in that
  mode; \<^verbatim>\<open>aggregate_mode_km\<close> maps each occurring mode to the sum of the distances of
  its segments; and a mode absent from \<^verbatim>\<open>MODE_ESG\<close> has the default factors
  (fuel 0, electricity 0, road space 1, noise 0.5, safety 0.5).
\<close>

theorem esg_metrics_are_sums_over_modes:
  "fuel_l (esg_metrics_for_segments segs)
     = (\<Sum>m\<in>mode ` set segs. fuel_l_per_km (esg_factors_of m) * mode_km segs m)
   \<and> kwh (esg_metrics_for_segments segs)
     = (\<Sum>m\<in>mode ` set segs. electricity_kwh_per_km (esg_factors_of m) * mode_km segs m)
   \<and> road_space_eq_km (esg_metrics_for_segments segs)
     = (\<Sum>m\<in>mode ` set segs. road_space_eq (esg_factors_of m) * mode_km segs m)
   \<and> noise_index_km (esg_metrics_for_segments segs)
     = (\<Sum>m\<in>mode ` set segs. noise_idx (esg_factors_of m) * mode_km segs m)
   \<and> safety_risk_km (esg_metrics_for_segments segs)
     = (\<Sum>m\<in>mode ` set segs. safety_risk (esg_factors_of m) * mode_km segs m)
   \<and> map_of (aggregate_mode_km segs) =
       (\<lambda>m. if m \<in> mode ` set segs
            then Some (sum_list (map distance_km (filter (\<lambda>s. mode s = m) segs))) else None)
   \<and> esg_factors_of =
       (\<lambda>m. case map_of MODE_ESG m of
              Some f \<Rightarrow> f
            | None \<Rightarrow> \<lparr>fuel_l_per_km = 0.0, electricity_kwh_per_km = 0.0, road_space_eq = 1.0,
                        noise_idx = 0.5, safety_risk = 0.5, capex_k = None\<rparr>)"
proof -
  have agg: "map_of (aggregate_mode_km segs) =
       (\<lambda>m. if m \<in> mode ` set segs
            then Some (sum_list (map distance_km (filter (\<lambda>s. mode s = m) segs))) else None)"
    by (rule ext) (simp add: aggregate_mode_km_map_of mode_km_def)
  have fac: "esg_factors_of =
       (\<lambda>m. case map_of MODE_ESG m of
              Some f \<Rightarrow> f
            | None \<Rightarrow> \<lparr>fuel_l_per_km = 0.0, electricity_kwh_per_km = 0.0, road_space_eq = 1.0,
                        noise_idx = 0.5, safety_risk = 0.5, capex_k = None\<rparr>)"
    by (rule ext) (simp add: esg_factors_of_def default_esg_def split: option.splits)
  have m1: "fuel_l (esg_metrics_for_segments segs)
     = (\<Sum>m\<in>mode ` set segs. fuel_l_per_km (esg_factors_of m) * mode_km segs m)"
    using metric_over_modes[of "\<lambda>m. fuel_l_per_km (esg_factors_of m)" segs]
    by (simp add: esg_metrics_for_segments_def esg_loop_sums)
  have m2: "kwh (esg_metrics_for_segments segs)
     = (\<Sum>m\<in>mode ` set segs. electricity_kwh_per_km (esg_factors_of m) * mode_km segs m)"
    using metric_over_modes[of "\<lambda>m. electricity_kwh_per_km (esg_factors_of m)" segs]
    by (simp add: esg_metrics_for_segments_def esg_loop_sums)
  have m3: "road_space_eq_km (esg_metrics_for_segments segs)
     = (\<Sum>m\<in>mode ` set segs. road_space_eq (esg_factors_of m) * mode_km segs m)"
    using metric_over_modes[of "\<lambda>m. road_space_eq (esg_factors_of m)" segs]
    by (simp add: esg_metrics_for_segments_def esg_loop_sums)
  have m4: "noise_index_km (esg_metrics_for_segments segs)
     = (\<Sum>m\<in>mode ` set segs. noise_idx (esg_factors_of m) * mode_km segs m)"
    using metric_over_modes[of "\<lambda>m. noise_idx (esg_factors_of m)" segs]
    by (simp add: esg_metrics_for_segments_def esg_loop_sums)
  have m5: "safety_risk_km (esg_metrics_for_segments segs)
     = (\<Sum>m\<in>mode ` set segs. safety_risk (esg_factors_of m) * mode_km segs m)"
    using metric_over_modes[of "\<lambda>m. safety_risk (esg_factors_of m)" segs]
    by (simp add: esg_metrics_for_segments_def esg_loop_sums)
  show ?thesis using m1 m2 m3 m4 m5 agg fac by (intro conjI)
qed


lemma plain_leg_simps [simp]: "mode (plain_leg m d) = m" "distance_km (plain_leg m d) = d"
  by (simp_all add: plain_leg_def)

lemma esg_factors_examples:
  "esg_factors_of ''truck'' = \<lparr>fuel_l_per_km = 0.30, electricity_kwh_per_km = 0.0,
     road_space_eq = 3.0, noise_idx = 0.84, safety_risk = 0.8, capex_k = Some 150\<rparr>"
  "esg_factors_of ''cargo_bike'' = \<lparr>fuel_l_per_km = 0.0, electricity_kwh_per_km = 0.05,
     road_space_eq = 0.4, noise_idx = 0.40, safety_risk = 0.3, capex_k = Some 7\<rparr>"
  by (simp_all add: esg_factors_of_def MODE_ESG_def)

theorem esg_metrics_are_sums_over_modes_witness:
  "fuel_l (esg_metrics_for_segments
      [plain_leg ''truck'' 2, plain_leg ''cargo_bike'' 3, plain_leg ''truck'' 1]) = 0.9
   \<and> kwh (esg_metrics_for_segments
      [plain_leg ''truck'' 2, plain_leg ''cargo_bike'' 3, plain_leg ''truck'' 1]) = 0.15
   \<and> road_space_eq_km (esg_metrics_for_segments
      [plain_leg ''truck'' 2, plain_leg ''cargo_bike'' 3, plain_leg ''truck'' 1]) = 10.2
   \<and> noise_index_km (esg_metrics_for_segments
      [plain_leg ''truck'' 2, plain_leg ''cargo_bike'' 3, plain_leg ''truck'' 1]) = 3.72
   \<and> safety_risk_km (esg_metrics_for_segments
      [plain_leg ''truck'' 2, plain_leg ''cargo_bike'' 3, plain_leg ''truck'' 1]) = 3.3"
proof -
  let ?L = "[plain_leg ''truck'' 2, plain_leg ''cargo_bike'' 3, plain_leg ''truck'' 1]"
  have S: "mode ` set ?L = {''truck'', ''cargo_bike''}" by auto
  have k1: "mode_km ?L ''truck'' = 3" by (simp add: mode_km_def)
  have k2: "mode_km ?L ''cargo_bike'' = 3" by (simp add: mode_km_def)
  note t = esg_metrics_are_sums_over_modes [of ?L, unfolded S]
  have "fuel_l (esg_metrics_for_segments ?L) = 0.9"
    by (simp add: t[THEN conjunct1] k1 k2 esg_factors_examples)
  moreover have "kwh (esg_metrics_for_segments ?L) = 0.15"
    by (simp add: t[THEN conjunct2, THEN conjunct1] k1 k2 esg_factors_examples)
  moreover have "road_space_eq_km (esg_metrics_for_segments ?L) = 10.2"
    by (simp add: t[THEN conjunct2, THEN conjunct2, THEN conjunct1] k1 k2 esg_factors_examples)
  moreover have "noise_index_km (esg_metrics_for_segments ?L) = 3.72"
    by (simp add: t[THEN conjunct2, THEN conjunct2, THEN conjunct2, THEN conjunct1]
          k1 k2 esg_factors_examples)
  moreover have "safety_risk_km (esg_metrics_for_segments ?L) = 3.3"
    by (simp add: t[THEN conjunct2, THEN conjunct2, THEN conjunct2, THEN conjunct2, THEN conjunct1]
          k1 k2 esg_factors_examples)
  ultimately show ?thesis by (intro conjI)
qed

end
